theory Spec2Isabelle
  imports Complex_Main "HOL-Library.Word" "HOL-Library.Sublist"
begin

unbundle bit_operations_syntax

section \<open>JavaScript values\<close>

text \<open>
  What a JavaScript \<^verbatim>\<open>throw\<close> carries in the modelled code: an \<^verbatim>\<open>Error\<close> with its
  message, the \<^verbatim>\<open>ZodError\<close> of a failed schema parse (the paths of the failing fields),
  the \<^verbatim>\<open>SyntaxError\<close> of \<^verbatim>\<open>BigInt(s)\<close>, and the value \<^verbatim>\<open>undefined\<close>. Every function
  that can throw returns \<open>thrown + 'a\<close>, with \<open>Inl\<close> for the throw.

  JavaScript numbers are IEEE doubles. A number that the code computes from integers is
  modelled by \<open>real\<close> (by \<open>int\<close> where the code only produces integers), rounding being
  outside the model; the NaN that \<^verbatim>\<open>parseInt\<close> returns on a string without digits is
  \<open>None\<close>. A number read from the bytes of an account is a \<open>double\<close>, defined below.
\<close>

datatype thrown =
    Err string
  | ZodError "string list"
  | SyntaxError string
  | ThrownUndefined

text \<open>
  The dynamically shaped values held in \<^verbatim>\<open>Record<string, any>\<close>. A \<^verbatim>\<open>PublicKey\<close>
  object carries what its \<^verbatim>\<open>toString()\<close> returns and its own enumerable properties.
\<close>

datatype jsval =
    JUndefined
  | JNull
  | JBool bool
  | JNum real
  | JNaN
  | JInfinity
  | JNegInfinity
  | JStr string
  | JBigInt int
  | JPublicKey string "(string \<times> jsval) list"
  | JArr "jsval list"
  | JObj "(string \<times> jsval) list"

subsection \<open>Decimal strings: \<^verbatim>\<open>toString\<close>, \<^verbatim>\<open>parseInt\<close>, \<^verbatim>\<open>BigInt\<close>\<close>

definition digit_char :: "nat \<Rightarrow> char" where
  "digit_char d = char_of (48 + d)"

definition is_digit :: "char \<Rightarrow> bool" where
  "is_digit c = (48 \<le> (of_char c :: nat) \<and> (of_char c :: nat) \<le> 57)"

definition digit_val :: "char \<Rightarrow> nat" where
  "digit_val c = of_char c - 48"

definition is_space :: "char \<Rightarrow> bool" where
  "is_space c = ((of_char c :: nat) \<in> {9, 10, 11, 12, 13, 32})"

function show_nat :: "nat \<Rightarrow> string" where
  "show_nat n = (if n < 10 then [digit_char n] else show_nat (n div 10) @ [digit_char (n mod 10)])"
  by pat_completeness auto
termination
  by (relation "measure (\<lambda>n. n)") auto

declare show_nat.simps [simp del]

text \<open>\<^verbatim>\<open>BigInt.prototype.toString()\<close> and \<^verbatim>\<open>Number.prototype.toString()\<close> on an integer.\<close>

definition bigint_toString :: "int \<Rightarrow> string" where
  "bigint_toString i = (if i < 0 then CHR ''-'' # show_nat (nat (- i)) else show_nat (nat i))"

definition parse_digits :: "string \<Rightarrow> nat" where
  "parse_digits ds = foldl (\<lambda>acc c. acc * 10 + digit_val c) 0 ds"

text \<open>
  An optional sign followed by the rest of the string, as \<^verbatim>\<open>parseInt\<close> and
  \<^verbatim>\<open>BigInt\<close> read it.
\<close>

fun split_sign :: "string \<Rightarrow> bool \<times> string" where
  "split_sign [] = (False, [])"
| "split_sign (c # cs) =
     (if c = CHR ''-'' then (True, cs) else if c = CHR ''+'' then (False, cs) else (False, c # cs))"

text \<open>
  \<^verbatim>\<open>parseInt(s)\<close> in radix 10: leading blanks are skipped, then an optional sign, then
  the longest prefix of digits; \<open>None\<close> is NaN (no digit). The hexadecimal prefix
  \<^verbatim>\<open>0x\<close> is not modelled: the strings read here are written by \<^verbatim>\<open>toString()\<close>.
\<close>

definition parseInt :: "string \<Rightarrow> int option" where
  "parseInt s =
     (let (neg, rest) = split_sign (dropWhile is_space s);
          ds = takeWhile is_digit rest
      in if ds = [] then None
         else Some (if neg then - int (parse_digits ds) else int (parse_digits ds)))"

text \<open>
  \<^verbatim>\<open>BigInt(s)\<close> on a string: blanks around the literal are trimmed, the empty literal is
  \<^verbatim>\<open>0n\<close>, a signed decimal literal is its value, anything else throws a SyntaxError
  (the radix prefixes \<^verbatim>\<open>0x\<close>, \<^verbatim>\<open>0o\<close>, \<^verbatim>\<open>0b\<close> are not modelled).
\<close>

definition BigInt :: "string \<Rightarrow> thrown + int" where
  "BigInt s =
     (let t = rev (dropWhile is_space (rev (dropWhile is_space s)))
      in if t = [] then Inr 0
         else (let (neg, ds) = split_sign t
               in if ds \<noteq> [] \<and> list_all is_digit ds
                  then Inr (if neg then - int (parse_digits ds) else int (parse_digits ds))
                  else Inl (SyntaxError s)))"

text \<open>The truthiness tests behind \<^verbatim>\<open>x || d\<close>, one per type of \<open>x\<close>.\<close>

definition str_or :: "string option \<Rightarrow> string \<Rightarrow> string" where
  "str_or x d = (case x of None \<Rightarrow> d | Some s \<Rightarrow> if s = [] then d else s)"

definition int_or :: "int option \<Rightarrow> int \<Rightarrow> int" where
  "int_or x d = (case x of None \<Rightarrow> d | Some n \<Rightarrow> if n = 0 then d else n)"

subsection \<open>Numbers read from account bytes\<close>

text \<open>
  \<^verbatim>\<open>readDoubleLE\<close> returns whatever IEEE double the eight bytes encode: a finite number,
  an infinity or NaN. A finite double is taken for the real number it denotes, so the
  rounding of the arithmetic and the sign of zero are outside the model; the infinities and
  NaN are kept, with what the operators \<^verbatim>\<open>-\<close>, \<^verbatim>\<open>+\<close>, \<^verbatim>\<open>*\<close>, \<^verbatim>\<open><\<close> and the functions
  \<^verbatim>\<open>Math.max\<close> and \<^verbatim>\<open>Math.min\<close> do on them.
\<close>

datatype double = Finite real | PosInfinity | NegInfinity | NaN

fun js_neg :: "double \<Rightarrow> double" where
  "js_neg (Finite x) = Finite (- x)"
| "js_neg PosInfinity = NegInfinity"
| "js_neg NegInfinity = PosInfinity"
| "js_neg NaN = NaN"

fun js_add :: "double \<Rightarrow> double \<Rightarrow> double" where
  "js_add NaN y = NaN"
| "js_add x NaN = NaN"
| "js_add (Finite x) (Finite y) = Finite (x + y)"
| "js_add PosInfinity NegInfinity = NaN"
| "js_add NegInfinity PosInfinity = NaN"
| "js_add PosInfinity y = PosInfinity"
| "js_add NegInfinity y = NegInfinity"
| "js_add (Finite x) y = y"

definition js_sub :: "double \<Rightarrow> double \<Rightarrow> double" where
  "js_sub x y = js_add x (js_neg y)"

fun js_mul :: "double \<Rightarrow> double \<Rightarrow> double" where
  "js_mul NaN y = NaN"
| "js_mul x NaN = NaN"
| "js_mul (Finite x) (Finite y) = Finite (x * y)"
| "js_mul (Finite x) y = (if x = 0 then NaN else if x < 0 then js_neg y else y)"
| "js_mul x (Finite y) = (if y = 0 then NaN else if y < 0 then js_neg x else x)"
| "js_mul PosInfinity y = y"
| "js_mul NegInfinity y = js_neg y"

text \<open>The operator \<^verbatim>\<open><\<close>: a comparison with NaN is false.\<close>

fun js_less :: "double \<Rightarrow> double \<Rightarrow> bool" where
  "js_less NaN y = False"
| "js_less x NaN = False"
| "js_less (Finite x) (Finite y) = (x < y)"
| "js_less NegInfinity NegInfinity = False"
| "js_less NegInfinity y = True"
| "js_less x NegInfinity = False"
| "js_less PosInfinity y = False"
| "js_less x PosInfinity = True"

text \<open>\<^verbatim>\<open>Math.max\<close> and \<^verbatim>\<open>Math.min\<close> of two numbers: NaN when one of them is NaN.\<close>

definition Math_max :: "double \<Rightarrow> double \<Rightarrow> double" where
  "Math_max x y = (if x = NaN \<or> y = NaN then NaN else if js_less x y then y else x)"

definition Math_min :: "double \<Rightarrow> double \<Rightarrow> double" where
  "Math_min x y = (if x = NaN \<or> y = NaN then NaN else if js_less y x then y else x)"

text \<open>\<^verbatim>\<open>x || d\<close> on a number: 0 and NaN are falsy.\<close>

definition number_or :: "double option \<Rightarrow> double \<Rightarrow> double" where
  "number_or x d =
     (case x of None \<Rightarrow> d | Some n \<Rightarrow> if n = Finite 0 \<or> n = NaN then d else n)"

text \<open>A number as a value held in \<^verbatim>\<open>Record<string, any>\<close>.\<close>

fun number_val :: "double \<Rightarrow> jsval" where
  "number_val (Finite x) = JNum x"
| "number_val PosInfinity = JInfinity"
| "number_val NegInfinity = JNegInfinity"
| "number_val NaN = JNaN"

text \<open>The real that a finite number denotes.\<close>

fun finite_value :: "double \<Rightarrow> real" where
  "finite_value (Finite x) = x"
| "finite_value x = 0"

section \<open>The unified market schema (normalize/types.ts)\<close>

datatype MarketStatus = Active | Settled | Expired | Paused | Cancelled

record Outcome =
  o_id :: string
  o_name :: string
  o_description :: "string option"
  probability :: real
  volume :: string
  liquidity :: string
  lastPrice :: "double option"

record Market =
  m_id :: string
  programId :: string
  address :: string
  m_name :: string
  m_description :: string
  category :: "string option"
  status :: MarketStatus
  outcomes :: "Outcome list"
  creator :: string
  resolver :: "string option"
  resolutionSource :: "string option"
  createdAt :: int
  expiresAt :: "int option"
  resolvedAt :: "int option"
  winningOutcome :: "string option"
  totalVolume :: string
  totalLiquidity :: string
  minStake :: "string option"
  maxStake :: "string option"
  fee :: "real option"
  metadata :: "(string \<times> jsval) list"

text \<open>\<^verbatim>\<open>Partial<Outcome>\<close> and \<^verbatim>\<open>Partial<Market>\<close>: every field may be absent.\<close>

record PartialOutcome =
  po_id :: "string option"
  po_name :: "string option"
  po_description :: "string option"
  po_probability :: "double option"
  po_volume :: "string option"
  po_liquidity :: "string option"
  po_lastPrice :: "double option"

record PartialMarket =
  p_id :: "string option"
  p_programId :: "string option"
  p_address :: "string option"
  p_name :: "string option"
  p_description :: "string option"
  p_category :: "string option"
  p_status :: "MarketStatus option"
  p_outcomes :: "Outcome list option"
  p_creator :: "string option"
  p_resolver :: "string option"
  p_resolutionSource :: "string option"
  p_createdAt :: "int option"
  p_expiresAt :: "int option"
  p_resolvedAt :: "int option"
  p_winningOutcome :: "string option"
  p_totalVolume :: "string option"
  p_totalLiquidity :: "string option"
  p_minStake :: "string option"
  p_maxStake :: "string option"
  p_fee :: "real option"
  p_metadata :: "(string \<times> jsval) list option"

record ProgramAccountData =
  a_programId :: string
  a_address :: string
  a_data :: "8 word list"
  a_slot :: nat

section \<open>MarketNormalizer (normalize/marketNormalizer.ts)\<close>

text \<open>
  The object handed to the schema in \<^verbatim>\<open>normalizeMarket\<close>: the defaults for the required
  fields. \<open>now\<close> is \<^verbatim>\<open>Date.now()\<close>.
\<close>

definition marketData :: "PartialMarket \<Rightarrow> int \<Rightarrow> Market" where
  "marketData d now =
     \<lparr> m_id = str_or (p_id d) [],
       programId = str_or (p_programId d) [],
       address = str_or (p_address d) [],
       m_name = str_or (p_name d) ''Unknown Market'',
       m_description = str_or (p_description d) [],
       category = p_category d,
       status = (case p_status d of None \<Rightarrow> Active | Some s \<Rightarrow> s),
       outcomes = (case p_outcomes d of None \<Rightarrow> [] | Some os \<Rightarrow> os),
       creator = str_or (p_creator d) [],
       resolver = p_resolver d,
       resolutionSource = p_resolutionSource d,
       createdAt = int_or (p_createdAt d) now,
       expiresAt = p_expiresAt d,
       resolvedAt = p_resolvedAt d,
       winningOutcome = p_winningOutcome d,
       totalVolume = str_or (p_totalVolume d) ''0'',
       totalLiquidity = str_or (p_totalLiquidity d) ''0'',
       minStake = p_minStake d,
       maxStake = p_maxStake d,
       fee = p_fee d,
       metadata = (case p_metadata d of None \<Rightarrow> [] | Some md \<Rightarrow> md) \<rparr>"

text \<open>
  The inline zod schema of \<^verbatim>\<open>normalizeMarket\<close>. Its checks on \<^verbatim>\<open>description\<close>,
  \<^verbatim>\<open>status\<close>, \<^verbatim>\<open>outcomes\<close> and \<^verbatim>\<open>creator\<close> are type checks that every \<open>Market\<close>
  passes; the four \<^verbatim>\<open>z.string().min(1)\<close> fields are the ones that can fail. The result is
  the list of failing paths, in the order of the schema.
\<close>

definition zod_issues :: "Market \<Rightarrow> string list" where
  "zod_issues m =
     map fst (filter (\<lambda>(path, v). length v < 1)
       [(''id'', m_id m), (''programId'', programId m), (''address'', address m),
        (''name'', m_name m)])"

definition normalizeMarket :: "PartialMarket \<Rightarrow> int \<Rightarrow> thrown + Market" where
  "normalizeMarket d now =
     (let md = marketData d now
      in if zod_issues md = [] then Inr md else Inl (ZodError (zod_issues md)))"

text \<open>
  \<^verbatim>\<open>normalizeOutcome\<close>. The three statements that set \<^verbatim>\<open>outcome.probability\<close> are
  \<open>outcome_probability\<close>: \<^verbatim>\<open>data.probability || 0\<close>, then 0 in place of a negative number,
  then 1 in place of a number above 1. What they leave is a finite number, whatever was
  passed (NaN is falsy and an infinity is replaced by 0 or 1), so the field \<open>probability\<close>
  of an \<open>Outcome\<close> is a real. \<^verbatim>\<open>lastPrice\<close> is copied as it is.
\<close>

definition outcome_probability :: "double option \<Rightarrow> double" where
  "outcome_probability x =
     (let p = number_or x (Finite 0);
          p = (if js_less p (Finite 0) then Finite 0 else p);
          p = (if js_less (Finite 1) p then Finite 1 else p)
      in p)"

definition normalizeOutcome :: "PartialOutcome \<Rightarrow> Outcome" where
  "normalizeOutcome d =
     \<lparr> o_id = str_or (po_id d) [],
       o_name = str_or (po_name d) ''Unknown Outcome'',
       o_description = po_description d,
       probability = finite_value (outcome_probability (po_probability d)),
       volume = str_or (po_volume d) ''0'',
       liquidity = str_or (po_liquidity d) ''0'',
       lastPrice = po_lastPrice d \<rparr>"

section \<open>Switchboard adapter (programs/switchboard/adapter.ts)\<close>

text \<open>
  The fields that \<^verbatim>\<open>decodeFeedAccount\<close> reads from the account bytes, with the types of
  the readers: \<^verbatim>\<open>readU32\<close> gives a 32-bit word, \<^verbatim>\<open>readU64\<close> and \<^verbatim>\<open>readI64\<close> a 64-bit
  word (read unsigned by \<open>uint\<close>, signed by \<open>sint\<close>), \<^verbatim>\<open>readF64\<close> any double.
\<close>

record OracleRound =
  numSuccess :: "32 word"
  numError :: "32 word"
  roundOpenSlot :: "64 word"
  roundOpenTimestamp :: "64 word"
  result :: double
  stdDeviation :: double
  minResponse :: double
  maxResponse :: double

record SwitchboardFeedAccount =
  sb_name :: string
  sb_metadata :: string
  authority :: string
  queueAddress :: string
  oracleRequestBatchSize :: "32 word"
  minOracleResults :: "32 word"
  minJobResults :: "32 word"
  minUpdateDelaySeconds :: "32 word"
  startAfter :: "64 word"
  varianceThreshold :: double
  forceReportPeriod :: "64 word"
  expiration :: "64 word"
  consecutiveFailureCount :: "64 word"
  nextAllowedUpdateTime :: "64 word"
  isLocked :: bool
  crankAddress :: string
  latestConfirmedRound :: OracleRound
  currentRound :: OracleRound

text \<open>
  The object that \<^verbatim>\<open>decodeFeedAccount\<close> returns and \<^verbatim>\<open>normalize\<close> reads as \<^verbatim>\<open>feed\<close>:
  the same fields, the 64-bit ones as decimal strings.
\<close>

record FeedRound =
  fr_numSuccess :: "32 word"
  fr_numError :: "32 word"
  fr_roundOpenSlot :: string
  fr_roundOpenTimestamp :: string
  fr_result :: double
  fr_stdDeviation :: double
  fr_minResponse :: double
  fr_maxResponse :: double

record Feed =
  f_name :: string
  f_metadata :: string
  f_authority :: string
  f_queueAddress :: string
  f_oracleRequestBatchSize :: "32 word"
  f_minOracleResults :: "32 word"
  f_minJobResults :: "32 word"
  f_minUpdateDelaySeconds :: "32 word"
  f_startAfter :: string
  f_varianceThreshold :: double
  f_forceReportPeriod :: string
  f_expiration :: string
  f_consecutiveFailureCount :: string
  f_nextAllowedUpdateTime :: string
  f_isLocked :: bool
  f_crankAddress :: string
  f_latestConfirmedRound :: FeedRound
  f_currentRound :: FeedRound

definition serializeRound :: "OracleRound \<Rightarrow> FeedRound" where
  "serializeRound r =
     \<lparr> fr_numSuccess = numSuccess r,
       fr_numError = numError r,
       fr_roundOpenSlot = bigint_toString (uint (roundOpenSlot r)),
       fr_roundOpenTimestamp = bigint_toString (sint (roundOpenTimestamp r)),
       fr_result = result r,
       fr_stdDeviation = stdDeviation r,
       fr_minResponse = minResponse r,
       fr_maxResponse = maxResponse r \<rparr>"

text \<open>The \<^verbatim>\<open>return\<close> statement of \<^verbatim>\<open>decodeFeedAccount\<close>.\<close>

definition serializeFeed :: "SwitchboardFeedAccount \<Rightarrow> Feed" where
  "serializeFeed a =
     \<lparr> f_name = sb_name a,
       f_metadata = sb_metadata a,
       f_authority = authority a,
       f_queueAddress = queueAddress a,
       f_oracleRequestBatchSize = oracleRequestBatchSize a,
       f_minOracleResults = minOracleResults a,
       f_minJobResults = minJobResults a,
       f_minUpdateDelaySeconds = minUpdateDelaySeconds a,
       f_startAfter = bigint_toString (sint (startAfter a)),
       f_varianceThreshold = varianceThreshold a,
       f_forceReportPeriod = bigint_toString (sint (forceReportPeriod a)),
       f_expiration = bigint_toString (sint (expiration a)),
       f_consecutiveFailureCount = bigint_toString (uint (consecutiveFailureCount a)),
       f_nextAllowedUpdateTime = bigint_toString (sint (nextAllowedUpdateTime a)),
       f_isLocked = isLocked a,
       f_crankAddress = crankAddress a,
       f_latestConfirmedRound = serializeRound (latestConfirmedRound a),
       f_currentRound = serializeRound (currentRound a) \<rparr>"

text \<open>
  \<^verbatim>\<open>calculateConfidence\<close>. The success rate is a quotient of two 32-bit counts, a finite
  number; the standard deviation is the double that was read from the account.
\<close>

definition calculateConfidence :: "Feed \<Rightarrow> double" where
  "calculateConfidence feed =
     (let round = f_latestConfirmedRound feed;
          total = real (unat (fr_numSuccess round)) + real (unat (fr_numError round));
          successRate = real (unat (fr_numSuccess round)) / (if total = 0 then 1 else total);
          stdPenalty = Math_max (Finite 0) (js_sub (Finite 1) (fr_stdDeviation round));
          confidence = js_add (js_mul (Finite successRate) (Finite 0.6))
                         (js_mul stdPenalty (Finite 0.4))
      in Math_max (Finite 0) (Math_min (Finite 1) confidence))"

text \<open>
  The status computed by \<^verbatim>\<open>normalize\<close>: two \<^verbatim>\<open>if\<close> statements in sequence, the second
  one overwriting what the first one set. \<open>expiry\<close> is the result of
  \<^verbatim>\<open>parseInt(feed.expiration)\<close> (comparisons with NaN are false), \<open>now\<close> is
  \<^verbatim>\<open>Date.now()\<close>.
\<close>

definition feed_status :: "bool \<Rightarrow> int option \<Rightarrow> int \<Rightarrow> MarketStatus" where
  "feed_status locked expiry now =
     (let status = Active;
          status = (if locked then Paused else status);
          status = (case expiry of
                      None \<Rightarrow> status
                    | Some e \<Rightarrow> if e > 0 \<and> real_of_int e < real_of_int now / 1000
                                then Expired else status)
      in status)"

definition switchboard_normalize :: "Feed \<Rightarrow> ProgramAccountData \<Rightarrow> int \<Rightarrow> thrown + Market" where
  "switchboard_normalize feed accountData now =
     (let probability =
            Math_max (Finite 0) (Math_min (Finite 1) (fr_result (f_latestConfirmedRound feed)));
          outcomes =
            [normalizeOutcome
               \<lparr> po_id = Some (a_address accountData @ ''-yes''),
                 po_name = Some ''Yes'',
                 po_description = Some ''Outcome is true'',
                 po_probability = Some probability,
                 po_volume = Some ''0'',
                 po_liquidity = Some ''0'',
                 po_lastPrice = Some probability \<rparr>,
             normalizeOutcome
               \<lparr> po_id = Some (a_address accountData @ ''-no''),
                 po_name = Some ''No'',
                 po_description = Some ''Outcome is false'',
                 po_probability = Some (js_sub (Finite 1) probability),
                 po_volume = Some ''0'',
                 po_liquidity = Some ''0'',
                 po_lastPrice = Some (js_sub (Finite 1) probability) \<rparr>];
          expiration = parseInt (f_expiration feed);
          status = feed_status (f_isLocked feed) expiration now
      in normalizeMarket
           \<lparr> p_id = Some (a_address accountData),
             p_programId = Some (a_programId accountData),
             p_address = Some (a_address accountData),
             p_name = Some (str_or (Some (f_name feed)) ''Switchboard Prediction Feed''),
             p_description = Some (str_or (Some (f_metadata feed)) ''Oracle-based prediction market''),
             p_category = Some ''oracle'',
             p_status = Some status,
             p_outcomes = Some outcomes,
             p_creator = Some (f_authority feed),
             p_resolver = Some (f_authority feed),
             p_resolutionSource = Some (a_address accountData),
             p_createdAt = Some now,
             p_expiresAt = (case expiration of
                              None \<Rightarrow> None
                            | Some e \<Rightarrow> if e > 0 then Some (e * 1000) else None),
             p_resolvedAt = None,
             p_winningOutcome = None,
             p_totalVolume = Some ''0'',
             p_totalLiquidity = Some ''0'',
             p_minStake = None,
             p_maxStake = None,
             p_fee = None,
             p_metadata = Some
               [(''oracleType'', JStr ''switchboard''),
                (''queueAddress'', JStr (f_queueAddress feed)),
                (''minOracleResults'', JNum (real (unat (f_minOracleResults feed)))),
                (''varianceThreshold'', number_val (f_varianceThreshold feed)),
                (''latestResult'', number_val (fr_result (f_latestConfirmedRound feed))),
                (''stdDeviation'', number_val (fr_stdDeviation (f_latestConfirmedRound feed))),
                (''confidence'', number_val (calculateConfidence feed)),
                (''lastUpdate'',
                   (case parseInt (fr_roundOpenTimestamp (f_latestConfirmedRound feed)) of
                      None \<Rightarrow> JNaN
                    | Some t \<Rightarrow> JNum (real_of_int (t * 1000)))),
                (''consecutiveFailures'', JStr (f_consecutiveFailureCount feed))] \<rparr>
           now)"

section \<open>Hxro adapter (programs/hxro/adapter.ts)\<close>

text \<open>
  The values that \<^verbatim>\<open>decodeMarketAccount\<close> reads from the account bytes: \<^verbatim>\<open>readU8\<close>
  gives a byte, \<^verbatim>\<open>readU16\<close> a 16-bit word, \<^verbatim>\<open>readU32\<close> a 32-bit word, \<^verbatim>\<open>readU64\<close>
  and \<^verbatim>\<open>readI64\<close> a 64-bit word. The total pool is a field of the account, read on its
  own: it is not computed from the pools of the outcomes.
\<close>

record HxroOutcomeRead =
  outcomeName :: string
  pool :: "64 word"
  bettors :: "32 word"

record HxroMarketRead =
  marketAddress :: string
  marketName :: string
  marketDescription :: string
  marketAuthority :: string
  oracleAddress :: string
  marketStatus :: "8 word"
  outcomesRead :: "HxroOutcomeRead list"
  totalPool :: "64 word"
  settlementTime :: "64 word"
  hx_createdAt :: "64 word"
  settledAt :: "64 word"
  hx_winningOutcome :: "8 word"
  feePercent :: "16 word"
  hx_minStake :: "64 word"
  hx_maxStake :: "64 word"

text \<open>The object that \<^verbatim>\<open>decodeMarketAccount\<close> returns, read by \<^verbatim>\<open>normalize\<close> as \<^verbatim>\<open>market\<close>.\<close>

record HxroOutcome =
  ho_id :: nat
  ho_name :: string
  ho_pool :: string
  ho_bettors :: "32 word"
  ho_odds :: real

record HxroMarketAccount =
  h_marketAddress :: string
  h_marketName :: string
  h_marketDescription :: string
  h_marketAuthority :: string
  h_oracleAddress :: string
  h_marketStatus :: "8 word"
  h_outcomes :: "HxroOutcome list"
  h_totalPool :: string
  h_settlementTime :: string
  h_createdAt :: string
  h_settledAt :: string
  h_winningOutcome :: "8 word"
  h_feePercent :: "16 word"
  h_minStake :: string
  h_maxStake :: string

text \<open>
  The end of \<^verbatim>\<open>decodeMarketAccount\<close>, after the reads: outcome \<open>i\<close> gets the id \<open>i\<close> and
  its odds \<^verbatim>\<open>totalPoolNum / outcomePool\<close> (0 for an empty pool), and the 64-bit values
  become decimal strings.
\<close>

definition decodedOutcome :: "64 word \<Rightarrow> nat \<Rightarrow> HxroOutcomeRead \<Rightarrow> HxroOutcome" where
  "decodedOutcome totalPoolW i out =
     \<lparr> ho_id = i,
       ho_name = outcomeName out,
       ho_pool = bigint_toString (uint (pool out)),
       ho_bettors = bettors out,
       ho_odds = (if real (unat (pool out)) > 0
                  then real (unat totalPoolW) / real (unat (pool out)) else 0) \<rparr>"

definition decodedMarket :: "HxroMarketRead \<Rightarrow> HxroMarketAccount" where
  "decodedMarket r =
     \<lparr> h_marketAddress = marketAddress r,
       h_marketName = marketName r,
       h_marketDescription = marketDescription r,
       h_marketAuthority = marketAuthority r,
       h_oracleAddress = oracleAddress r,
       h_marketStatus = marketStatus r,
       h_outcomes = map (\<lambda>(i, out). decodedOutcome (totalPool r) i out)
                      (zip [0 ..< length (outcomesRead r)] (outcomesRead r)),
       h_totalPool = bigint_toString (uint (totalPool r)),
       h_settlementTime = bigint_toString (sint (settlementTime r)),
       h_createdAt = bigint_toString (sint (hx_createdAt r)),
       h_settledAt = bigint_toString (sint (settledAt r)),
       h_winningOutcome = hx_winningOutcome r,
       h_feePercent = feePercent r,
       h_minStake = bigint_toString (uint (hx_minStake r)),
       h_maxStake = bigint_toString (uint (hx_maxStake r)) \<rparr>"

text \<open>\<^verbatim>\<open>statusMap[market.marketStatus] || 'active'\<close>.\<close>

definition statusMap :: "8 word \<Rightarrow> MarketStatus" where
  "statusMap code =
     (if code = 0 then Active else if code = 1 then Paused else if code = 2 then Settled
      else if code = 3 then Cancelled else Active)"

text \<open>\<^verbatim>\<open>Array.prototype.map\<close> with a callback that may throw: the first throw ends it.\<close>

fun map_throw :: "('a \<Rightarrow> thrown + 'b) \<Rightarrow> 'a list \<Rightarrow> thrown + 'b list" where
  "map_throw f [] = Inr []"
| "map_throw f (x # xs) =
     (case f x of
        Inl e \<Rightarrow> Inl e
      | Inr y \<Rightarrow> (case map_throw f xs of Inl e \<Rightarrow> Inl e | Inr ys \<Rightarrow> Inr (y # ys)))"

text \<open>The callback of \<^verbatim>\<open>market.outcomes.map\<close> in \<^verbatim>\<open>normalize\<close>.\<close>

definition hxro_outcome ::
  "HxroMarketAccount \<Rightarrow> ProgramAccountData \<Rightarrow> int \<Rightarrow> HxroOutcome \<Rightarrow> thrown + Outcome" where
  "hxro_outcome market accountData totalPoolB outcome =
     (case BigInt (ho_pool outcome) of
        Inl e \<Rightarrow> Inl e
      | Inr outcomePool \<Rightarrow>
          (let prob = (if totalPoolB > 0 then real_of_int outcomePool / real_of_int totalPoolB
                       else 1 / real (length (h_outcomes market)));
               feeMultiplier = 1 - real (unat (h_feePercent market)) / 10000;
               impliedOdds = ho_odds outcome * feeMultiplier;
               price = (if impliedOdds > 0 then 1 / impliedOdds else 0)
           in Inr (normalizeOutcome
                \<lparr> po_id = Some (a_address accountData @ ''-'' @ bigint_toString (int (ho_id outcome))),
                  po_name = Some (ho_name outcome),
                  po_description = None,
                  po_probability = Some (Finite (max 0 (min 1 prob))),
                  po_volume = Some (ho_pool outcome),
                  po_liquidity = Some (ho_pool outcome),
                  po_lastPrice = Some (Finite price) \<rparr>)))"

definition hxro_normalize ::
  "HxroMarketAccount \<Rightarrow> ProgramAccountData \<Rightarrow> int \<Rightarrow> thrown + Market" where
  "hxro_normalize market accountData now =
     (let status = statusMap (h_marketStatus market)
      in case BigInt (h_totalPool market) of
           Inl e \<Rightarrow> Inl e
         | Inr totalPoolB \<Rightarrow>
             (case map_throw (hxro_outcome market accountData totalPoolB) (h_outcomes market) of
                Inl e \<Rightarrow> Inl e
              | Inr outs \<Rightarrow>
                  normalizeMarket
                    \<lparr> p_id = Some (a_address accountData),
                      p_programId = Some (a_programId accountData),
                      p_address = Some (a_address accountData),
                      p_name = Some (str_or (Some (h_marketName market)) ''Hxro Parimutuel Market''),
                      p_description = Some (str_or (Some (h_marketDescription market)) []),
                      p_category = Some ''parimutuel'',
                      p_status = Some status,
                      p_outcomes = Some outs,
                      p_creator = Some (h_marketAuthority market),
                      p_resolver = Some (h_marketAuthority market),
                      p_resolutionSource = Some (h_oracleAddress market),
                      p_createdAt = Some (int_or (map_option (\<lambda>t. t * 1000)
                                       (parseInt (h_createdAt market))) now),
                      p_expiresAt = (case parseInt (h_settlementTime market) of
                                       None \<Rightarrow> None
                                     | Some t \<Rightarrow> if t * 1000 = 0 then None else Some (t * 1000)),
                      p_resolvedAt = (case parseInt (h_settledAt market) of
                                        None \<Rightarrow> None
                                      | Some t \<Rightarrow> if t > 0 then Some (t * 1000) else None),
                      p_winningOutcome =
                        (if h_winningOutcome market \<noteq> 255
                         then Some (a_address accountData @ ''-''
                                @ bigint_toString (uint (h_winningOutcome market)))
                         else None),
                      p_totalVolume = Some (h_totalPool market),
                      p_totalLiquidity = Some (h_totalPool market),
                      p_minStake = Some (h_minStake market),
                      p_maxStake = Some (h_maxStake market),
                      p_fee = Some (real (unat (h_feePercent market)) / 100),
                      p_metadata = Some
                        [(''marketType'', JStr ''parimutuel''),
                         (''protocol'', JStr ''hxro''),
                         (''outcomeCount'', JNum (real (length (h_outcomes market)))),
                         (''totalBettors'',
                            JNum (foldl (\<lambda>sum o'. sum + real (unat (ho_bettors o'))) 0
                                    (h_outcomes market))),
                         (''odds'',
                            JArr (map (\<lambda>o'. JObj [(''outcome'', JStr (ho_name o')),
                                                    (''odds'', JNum (ho_odds o'))])
                                    (h_outcomes market)))] \<rparr>
                    now))"

section \<open>Account decoders (programs/shared/accountDecoder.ts)\<close>

type_synonym Buffer = "8 word list"

record DecodedAccount =
  d_type :: string
  d_data :: jsval

text \<open>
  \<^verbatim>\<open>serializeData\<close> of the Borsh decoder. A value that is not an object is returned as it
  is; an array is mapped; the entries of any other object are converted one by one, a
  bigint and a \<^verbatim>\<open>PublicKey\<close> to their strings and a nested object by recursion.
\<close>

fun serializeData :: "jsval \<Rightarrow> jsval"
  and serializeItems :: "jsval list \<Rightarrow> jsval list"
  and serializeEntries :: "(string \<times> jsval) list \<Rightarrow> (string \<times> jsval) list" where
  "serializeData JUndefined = JObj []"
| "serializeData JNull = JObj []"
| "serializeData (JBool b) = JBool b"
| "serializeData (JNum x) = JNum x"
| "serializeData JNaN = JNaN"
| "serializeData JInfinity = JInfinity"
| "serializeData JNegInfinity = JNegInfinity"
| "serializeData (JStr s) = JStr s"
| "serializeData (JBigInt i) = JBigInt i"
| "serializeData (JArr items) = JArr (serializeItems items)"
| "serializeData (JObj entries) = JObj (serializeEntries entries)"
| "serializeData (JPublicKey s entries) = JObj (serializeEntries entries)"
| "serializeItems [] = []"
| "serializeItems (item # items) = serializeData item # serializeItems items"
| "serializeEntries [] = []"
| "serializeEntries ((key, JUndefined) # rest) = (key, JUndefined) # serializeEntries rest"
| "serializeEntries ((key, JNull) # rest) = (key, JNull) # serializeEntries rest"
| "serializeEntries ((key, JBigInt i) # rest) = (key, JStr (bigint_toString i)) # serializeEntries rest"
| "serializeEntries ((key, JPublicKey s entries) # rest) = (key, JStr s) # serializeEntries rest"
| "serializeEntries ((key, JArr items) # rest) =
     (key, serializeData (JArr items)) # serializeEntries rest"
| "serializeEntries ((key, JObj entries) # rest) =
     (key, serializeData (JObj entries)) # serializeEntries rest"
| "serializeEntries ((key, JBool b) # rest) = (key, JBool b) # serializeEntries rest"
| "serializeEntries ((key, JNum x) # rest) = (key, JNum x) # serializeEntries rest"
| "serializeEntries ((key, JNaN) # rest) = (key, JNaN) # serializeEntries rest"
| "serializeEntries ((key, JInfinity) # rest) = (key, JInfinity) # serializeEntries rest"
| "serializeEntries ((key, JNegInfinity) # rest) = (key, JNegInfinity) # serializeEntries rest"
| "serializeEntries ((key, JStr s) # rest) = (key, JStr s) # serializeEntries rest"

text \<open>
  The three classes that implement \<^verbatim>\<open>AccountDecoder\<close>, with their fields. The Anchor
  \<^verbatim>\<open>BorshCoder\<close> of a Borsh decoder is outside the repository: it is the function
  \<^verbatim>\<open>coder.accounts.decode\<close>, from the account name and the bytes to the decoded object or
  a throw. The \<^verbatim>\<open>decoderFn\<close> of a manual decoder is any function that returns or throws.
\<close>

datatype AccountDecoder =
    BorshAccountDecoder "string \<Rightarrow> Buffer \<Rightarrow> thrown + jsval" string
  | ManualAccountDecoder string "Buffer \<Rightarrow> thrown + jsval"
  | MultiAccountDecoder "AccountDecoder list"

text \<open>\<^verbatim>\<open>BorshAccountDecoder.decode\<close> and \<^verbatim>\<open>ManualAccountDecoder.decode\<close>: log and rethrow.\<close>

definition borsh_decode ::
  "(string \<Rightarrow> Buffer \<Rightarrow> thrown + jsval) \<Rightarrow> string \<Rightarrow> Buffer \<Rightarrow> thrown + DecodedAccount" where
  "borsh_decode coder accountName data =
     (case coder accountName data of
        Inl e \<Rightarrow> Inl e
      | Inr decoded \<Rightarrow> Inr \<lparr> d_type = accountName, d_data = serializeData decoded \<rparr>)"

definition manual_decode ::
  "string \<Rightarrow> (Buffer \<Rightarrow> thrown + jsval) \<Rightarrow> Buffer \<Rightarrow> thrown + DecodedAccount" where
  "manual_decode accountType decoderFn data =
     (case decoderFn data of
        Inl e \<Rightarrow> Inl e
      | Inr decoded \<Rightarrow> Inr \<lparr> d_type = accountType, d_data = decoded \<rparr>)"

text \<open>
  \<^verbatim>\<open>validate\<close>, with the throw it might make kept in the result type. The Borsh decoder
  answers \<^verbatim>\<open>false\<close> on fewer than 8 bytes before it tries to decode; both leaf decoders
  catch the throw of \<^verbatim>\<open>decode\<close>. The composite one is \<^verbatim>\<open>decoders.some(...)\<close>: it stops
  at the first \<^verbatim>\<open>true\<close>, and a throw of a member would pass through.
\<close>

fun validate :: "AccountDecoder \<Rightarrow> Buffer \<Rightarrow> thrown + bool"
  and validate_some :: "AccountDecoder list \<Rightarrow> Buffer \<Rightarrow> thrown + bool" where
  "validate (BorshAccountDecoder coder accountName) data =
     (if length data < 8 then Inr False
      else (case borsh_decode coder accountName data of
              Inl e \<Rightarrow> Inr False
            | Inr decoded \<Rightarrow> Inr True))"
| "validate (ManualAccountDecoder accountType decoderFn) data =
     (case manual_decode accountType decoderFn data of
        Inl e \<Rightarrow> Inr False
      | Inr decoded \<Rightarrow> Inr True)"
| "validate (MultiAccountDecoder decoders) data = validate_some decoders data"
| "validate_some [] data = Inr False"
| "validate_some (decoder # decoders) data =
     (case validate decoder data of
        Inl e \<Rightarrow> Inl e
      | Inr ok \<Rightarrow> if ok then Inr True else validate_some decoders data)"

text \<open>
  \<^verbatim>\<open>decode\<close>. The loop of the composite decoder tries the decoders in order; a throw of
  \<^verbatim>\<open>validate\<close> or of \<^verbatim>\<open>decode\<close> inside the \<^verbatim>\<open>try\<close> continues with the next one.
\<close>

fun decode :: "AccountDecoder \<Rightarrow> Buffer \<Rightarrow> thrown + DecodedAccount"
  and decode_first :: "AccountDecoder list \<Rightarrow> Buffer \<Rightarrow> thrown + DecodedAccount" where
  "decode (BorshAccountDecoder coder accountName) data = borsh_decode coder accountName data"
| "decode (ManualAccountDecoder accountType decoderFn) data =
     manual_decode accountType decoderFn data"
| "decode (MultiAccountDecoder decoders) data = decode_first decoders data"
| "decode_first [] data = Inl (Err ''No decoder could successfully decode the account data'')"
| "decode_first (decoder # decoders) data =
     (case validate decoder data of
        Inl e \<Rightarrow> decode_first decoders data
      | Inr ok \<Rightarrow>
          if ok then (case decode decoder data of
                        Inl e \<Rightarrow> decode_first decoders data
                      | Inr decoded \<Rightarrow> Inr decoded)
          else decode_first decoders data)"

section \<open>Event dispatcher (indexer/eventDispatcher.ts)\<close>

datatype MarketEventType =
    MarketCreated | MarketUpdated | MarketResolved | TradeExecuted
  | OrderPlaced | OrderCancelled | OrderbookUpdated | OracleUpdated

record MarketEvent =
  ev_type :: MarketEventType
  ev_timestamp :: int
  ev_slot :: nat
  ev_signature :: "string option"
  ev_data :: jsval

record ReplayBufferOptions =
  enabled :: bool
  maxSize :: nat
  ttlMs :: "nat option"

record BufferedEvent =
  event :: MarketEvent
  timestamp :: int

text \<open>
  A handler is a JavaScript function, known to the dispatcher by its identity only: the
  model names it by a number. What a handler does to the dispatcher (it may call
  \<^verbatim>\<open>dispatch\<close>, \<^verbatim>\<open>on\<close> or \<^verbatim>\<open>off\<close>) is a call of its own in the sequence of calls below;
  a throw of a handler is caught inside \<^verbatim>\<open>processEvent\<close>. A \<^verbatim>\<open>Set\<close> of handlers is a list
  without repetition, in insertion order, and the \<^verbatim>\<open>Map\<close> from event types is a map.
\<close>

type_synonym EventHandler = nat

record EventDispatcher =
  replayBuffer :: "BufferedEvent list"
  replayBufferConfig :: ReplayBufferOptions
  handlers :: "MarketEventType \<rightharpoonup> EventHandler list"
  globalHandlers :: "EventHandler list"
  processingQueue :: "MarketEvent list"
  isProcessing :: bool

text \<open>The constructor.\<close>

definition new_EventDispatcher :: "ReplayBufferOptions \<Rightarrow> EventDispatcher" where
  "new_EventDispatcher config =
     \<lparr> replayBuffer = [], replayBufferConfig = config, handlers = Map.empty,
       globalHandlers = [], processingQueue = [], isProcessing = False \<rparr>"

definition set_add :: "'a \<Rightarrow> 'a list \<Rightarrow> 'a list" where
  "set_add x xs = (if x \<in> set xs then xs else xs @ [x])"

definition set_delete :: "'a \<Rightarrow> 'a list \<Rightarrow> 'a list" where
  "set_delete x xs = removeAll x xs"

definition on :: "MarketEventType \<Rightarrow> EventHandler \<Rightarrow> EventDispatcher \<Rightarrow> EventDispatcher" where
  "on eventType handler d =
     (let known = (case handlers d eventType of None \<Rightarrow> [] | Some hs \<Rightarrow> hs)
      in d\<lparr>handlers := (handlers d)(eventType \<mapsto> set_add handler known)\<rparr>)"

definition onAll :: "EventHandler \<Rightarrow> EventDispatcher \<Rightarrow> EventDispatcher" where
  "onAll handler d = d\<lparr>globalHandlers := set_add handler (globalHandlers d)\<rparr>"

definition off :: "MarketEventType \<Rightarrow> EventHandler \<Rightarrow> EventDispatcher \<Rightarrow> EventDispatcher" where
  "off eventType handler d =
     (case handlers d eventType of
        None \<Rightarrow> d
      | Some hs \<Rightarrow> d\<lparr>handlers := (handlers d)(eventType \<mapsto> set_delete handler hs)\<rparr>)"

definition offAll :: "EventHandler \<Rightarrow> EventDispatcher \<Rightarrow> EventDispatcher" where
  "offAll handler d = d\<lparr>globalHandlers := set_delete handler (globalHandlers d)\<rparr>"

text \<open>
  \<^verbatim>\<open>addToReplayBuffer\<close>: push, then \<^verbatim>\<open>splice(0, excess)\<close> when the length exceeds
  \<^verbatim>\<open>maxSize\<close>. \<open>now\<close> is \<^verbatim>\<open>Date.now()\<close>.
\<close>

definition addToReplayBuffer :: "MarketEvent \<Rightarrow> int \<Rightarrow> EventDispatcher \<Rightarrow> EventDispatcher" where
  "addToReplayBuffer ev now d =
     (let buffer = replayBuffer d @ [\<lparr> event = ev, timestamp = now \<rparr>];
          buffer = (if length buffer > maxSize (replayBufferConfig d)
                    then (let excess = length buffer - maxSize (replayBufferConfig d)
                          in drop excess buffer)
                    else buffer)
      in d\<lparr>replayBuffer := buffer\<rparr>)"

text \<open>\<^verbatim>\<open>cleanupOldEvents\<close>, run by the timer; \<^verbatim>\<open>!ttlMs\<close> holds for an absent and for a zero TTL.\<close>

definition cleanupOldEvents :: "int \<Rightarrow> EventDispatcher \<Rightarrow> EventDispatcher" where
  "cleanupOldEvents now d =
     (case ttlMs (replayBufferConfig d) of
        None \<Rightarrow> d
      | Some ttl \<Rightarrow>
          if ttl = 0 then d
          else (let cutoff = now - int ttl
                in d\<lparr>replayBuffer := filter (\<lambda>item. timestamp item > cutoff) (replayBuffer d)\<rparr>))"

definition clearReplayBuffer :: "EventDispatcher \<Rightarrow> EventDispatcher" where
  "clearReplayBuffer d = d\<lparr>replayBuffer := []\<rparr>"

definition getReplayBuffer ::
  "MarketEventType option \<Rightarrow> int option \<Rightarrow> EventDispatcher \<Rightarrow> MarketEvent list" where
  "getReplayBuffer eventType since d =
     (let events = map event (replayBuffer d);
          events = (case eventType of
                      None \<Rightarrow> events
                    | Some t \<Rightarrow> filter (\<lambda>e. ev_type e = t) events);
          events = (case since of
                      None \<Rightarrow> events
                    | Some s \<Rightarrow> if s = 0 then events
                               else filter (\<lambda>e. ev_timestamp e \<ge> s) events)
      in events)"

text \<open>
  The handlers that \<^verbatim>\<open>processEvent\<close> runs for an event, in the order of the calls: the
  handlers of its type, then the global ones.
\<close>

definition allHandlers :: "EventDispatcher \<Rightarrow> MarketEvent \<Rightarrow> EventHandler list" where
  "allHandlers d ev =
     (case handlers d (ev_type ev) of None \<Rightarrow> [] | Some hs \<Rightarrow> hs) @ globalHandlers d"

subsection \<open>The asynchronous part\<close>

text \<open>
  JavaScript runs one piece of code at a time and switches only at an \<^verbatim>\<open>await\<close>. The only
  \<^verbatim>\<open>await\<close> inside the drain loop of \<^verbatim>\<open>processQueue\<close> is the one on \<^verbatim>\<open>processEvent\<close>,
  which calls every handler of the event at once and then waits until all of them have
  settled. So the dispatcher moves in the atomic steps below, taken in any order by any
  number of producers.

  The state of the system is the dispatcher object together with what an observer records:
  \<^item> \<open>drains\<close>, the number of activations of the drain loop that have passed the
    \<^verbatim>\<open>isProcessing\<close> guard and have not left the loop (each of them waits at the
    \<^verbatim>\<open>await\<close>);
  \<^item> \<open>deliveries\<close>, one entry for each call of \<^verbatim>\<open>processEvent\<close>, in order: the event and
    the handlers that were called with it;
  \<^item> \<open>enqueued\<close>, the events in the order in which \<^verbatim>\<open>dispatch\<close> pushed them.
  The events of the \<^verbatim>\<open>MarketEventType\<close> enum never make \<^verbatim>\<open>emit\<close> throw, so
  \<^verbatim>\<open>processEvent\<close> never throws.
\<close>

record System =
  disp :: EventDispatcher
  drains :: nat
  deliveries :: "(MarketEvent \<times> EventHandler list) list"
  enqueued :: "MarketEvent list"

definition new_System :: "ReplayBufferOptions \<Rightarrow> System" where
  "new_System config =
     \<lparr> disp = new_EventDispatcher config, drains = 0, deliveries = [], enqueued = [] \<rparr>"

text \<open>
  One turn of the \<^verbatim>\<open>while\<close> loop of \<^verbatim>\<open>processQueue\<close>, from the test to the next
  \<^verbatim>\<open>await\<close>: either the first event of the queue is shifted and handed to
  \<^verbatim>\<open>processEvent\<close>, or the queue is empty, the \<^verbatim>\<open>finally\<close> block resets \<^verbatim>\<open>isProcessing\<close>
  and this activation of the loop is over.
\<close>

definition drain_turn :: "System \<Rightarrow> System" where
  "drain_turn s =
     (case processingQueue (disp s) of
        ev # rest \<Rightarrow>
          s\<lparr>disp := (disp s)\<lparr>processingQueue := rest\<rparr>,
            deliveries := deliveries s @ [(ev, allHandlers (disp s) ev)]\<rparr>
      | [] \<Rightarrow>
          s\<lparr>disp := (disp s)\<lparr>isProcessing := False\<rparr>, drains := drains s - 1\<rparr>)"

text \<open>
  \<^verbatim>\<open>processQueue\<close> up to its first \<^verbatim>\<open>await\<close>: it returns at once when \<^verbatim>\<open>isProcessing\<close>
  is set, and otherwise sets it and starts the loop.
\<close>

definition processQueue :: "System \<Rightarrow> System" where
  "processQueue s =
     (if isProcessing (disp s) then s
      else drain_turn (s\<lparr>disp := (disp s)\<lparr>isProcessing := True\<rparr>, drains := drains s + 1\<rparr>))"

text \<open>\<^verbatim>\<open>dispatch\<close> up to its first \<^verbatim>\<open>await\<close>.\<close>

definition dispatch :: "MarketEvent \<Rightarrow> int \<Rightarrow> System \<Rightarrow> System" where
  "dispatch ev now s =
     (let d = disp s;
          d = (if enabled (replayBufferConfig d) then addToReplayBuffer ev now d else d);
          d = d\<lparr>processingQueue := processingQueue d @ [ev]\<rparr>
      in processQueue (s\<lparr>disp := d, enqueued := enqueued s @ [ev]\<rparr>))"

text \<open>
  The handlers of the event in flight have all settled: an activation of the drain loop
  that waits at the \<^verbatim>\<open>await\<close> takes its next turn.
\<close>

definition settle :: "System \<Rightarrow> System" where
  "settle s = (if drains s > 0 then drain_turn s else s)"

text \<open>What can happen to a dispatcher, and a run of such calls from left to right.\<close>

datatype call =
    Dispatch MarketEvent int
  | Settle
  | On MarketEventType EventHandler
  | OnAll EventHandler
  | Off MarketEventType EventHandler
  | OffAll EventHandler
  | CleanupOldEvents int
  | ClearReplayBuffer

fun step :: "call \<Rightarrow> System \<Rightarrow> System" where
  "step (Dispatch ev now) s = dispatch ev now s"
| "step Settle s = settle s"
| "step (On eventType handler) s = s\<lparr>disp := on eventType handler (disp s)\<rparr>"
| "step (OnAll handler) s = s\<lparr>disp := onAll handler (disp s)\<rparr>"
| "step (Off eventType handler) s = s\<lparr>disp := off eventType handler (disp s)\<rparr>"
| "step (OffAll handler) s = s\<lparr>disp := offAll handler (disp s)\<rparr>"
| "step (CleanupOldEvents now) s = s\<lparr>disp := cleanupOldEvents now (disp s)\<rparr>"
| "step ClearReplayBuffer s = s\<lparr>disp := clearReplayBuffer (disp s)\<rparr>"

definition run :: "call list \<Rightarrow> System \<Rightarrow> System" where
  "run calls s = fold step calls s"

text \<open>The calls that leave the entries of the replay buffer in place.\<close>

fun keeps_buffer :: "call \<Rightarrow> bool" where
  "keeps_buffer (CleanupOldEvents now) = False"
| "keeps_buffer ClearReplayBuffer = False"
| "keeps_buffer c = True"

section \<open>Retry helper (utils/retry.ts)\<close>

record RetryOptions =
  maxAttempts :: nat
  initialDelayMs :: nat
  maxDelayMs :: nat
  backoffMultiplier :: nat

definition DEFAULT_OPTIONS :: RetryOptions where
  "DEFAULT_OPTIONS =
     \<lparr> maxAttempts = 5, initialDelayMs = 1000, maxDelayMs = 30000, backoffMultiplier = 2 \<rparr>"

text \<open>\<^verbatim>\<open>error instanceof Error ? error : new Error(String(error))\<close>.\<close>

fun toError :: "thrown \<Rightarrow> thrown" where
  "toError ThrownUndefined = Err ''undefined''"
| "toError e = e"

text \<open>
  \<^verbatim>\<open>withRetry\<close>. The function \<open>fn\<close> and \<^verbatim>\<open>sleep\<close> act on a state \<open>'s\<close>, which is threaded
  through. The \<^verbatim>\<open>for\<close> loop counts \<open>attempt\<close> from 1: a result is returned, the error of
  the last attempt is thrown, any other error is followed by \<^verbatim>\<open>sleep(delay)\<close> and the next
  attempt. No error is told apart from another. When the loop body never runs,
  \<^verbatim>\<open>throw lastError!\<close> throws \<^verbatim>\<open>undefined\<close>.
\<close>

function withRetry_loop ::
  "('s \<Rightarrow> (thrown + 'a) \<times> 's) \<Rightarrow> (nat \<Rightarrow> 's \<Rightarrow> 's) \<Rightarrow> RetryOptions \<Rightarrow> nat \<Rightarrow> nat \<Rightarrow> 's
     \<Rightarrow> (thrown + 'a) \<times> 's" where
  "withRetry_loop fn sleep opts attempt delay s =
     (if attempt \<le> maxAttempts opts
      then (case fn s of
              (Inr v, s') \<Rightarrow> (Inr v, s')
            | (Inl error, s') \<Rightarrow>
                (let lastError = toError error
                 in if attempt = maxAttempts opts then (Inl lastError, s')
                    else withRetry_loop fn sleep opts (attempt + 1)
                           (min (delay * backoffMultiplier opts) (maxDelayMs opts))
                           (sleep delay s')))
      else (Inl ThrownUndefined, s))"
  by pat_completeness auto
termination
  by (relation "measure (\<lambda>(fn, sleep, opts, attempt, delay, s). Suc (maxAttempts opts) - attempt)")
    auto

declare withRetry_loop.simps [simp del]

definition withRetry ::
  "('s \<Rightarrow> (thrown + 'a) \<times> 's) \<Rightarrow> (nat \<Rightarrow> 's \<Rightarrow> 's) \<Rightarrow> RetryOptions \<Rightarrow> 's \<Rightarrow> (thrown + 'a) \<times> 's" where
  "withRetry fn sleep opts s = withRetry_loop fn sleep opts 1 (initialDelayMs opts) s"

section \<open>RPC client (rpc/connection.ts)\<close>

text \<open>
  What the client does to the outside, in order: a call of the operation over the
  connection to an endpoint, the \<^verbatim>\<open>getSlot\<close> probe of \<^verbatim>\<open>failover\<close>, and a \<^verbatim>\<open>sleep\<close>; the
  boolean tells whether the call succeeded. The answer of the network to a call depends
  on the endpoint and on everything that happened before.
\<close>

datatype net_event =
    Called string bool
  | Probed string bool
  | Slept nat

type_synonym 'a rpc = "string \<Rightarrow> net_event list \<Rightarrow> thrown + 'a"

record SolanaRpcConfig =
  httpEndpoint :: string
  wsEndpoint :: string
  fallbackEndpoints :: "string list option"

text \<open>
  A \<^verbatim>\<open>Connection\<close> object is known by the endpoint it was created for. The fields
  \<^verbatim>\<open>wsEndpoint\<close> and \<^verbatim>\<open>config\<close> of the client, which are set by the constructor and only
  passed on to every new connection, are left out.
\<close>

record SolanaRpcClient =
  connection :: string
  currentEndpointIndex :: nat
  endpoints :: "string list"
  failoverInProgress :: bool

text \<open>
  \<^verbatim>\<open>shouldFailover\<close>: the lower-cased message of the error contains one of six words. An
  error without a message has the message \<^verbatim>\<open>''\<close>.
\<close>

definition toLowerCase :: "string \<Rightarrow> string" where
  "toLowerCase s =
     map (\<lambda>c. if 65 \<le> (of_char c :: nat) \<and> (of_char c :: nat) \<le> 90
               then char_of ((of_char c :: nat) + 32) else c) s"

fun startsWith :: "string \<Rightarrow> string \<Rightarrow> bool" where
  "startsWith s [] = True"
| "startsWith [] (p # ps) = False"
| "startsWith (c # cs) (p # ps) = (c = p \<and> startsWith cs ps)"

fun includes_str :: "string \<Rightarrow> string \<Rightarrow> bool" where
  "includes_str [] pat = (pat = [])"
| "includes_str (c # cs) pat = (startsWith (c # cs) pat \<or> includes_str cs pat)"

fun message :: "thrown \<Rightarrow> string option" where
  "message (Err m) = Some m"
| "message (ZodError paths) = Some (concat paths)"
| "message (SyntaxError s) = Some (''Cannot convert '' @ s @ '' to a BigInt'')"
| "message ThrownUndefined = None"

definition shouldFailover :: "thrown \<Rightarrow> bool" where
  "shouldFailover error =
     (let errorMessage = (case message error of None \<Rightarrow> [] | Some m \<Rightarrow> toLowerCase m)
      in includes_str errorMessage ''timeout'' \<or> includes_str errorMessage ''network''
         \<or> includes_str errorMessage ''econnrefused'' \<or> includes_str errorMessage ''429''
         \<or> includes_str errorMessage ''503'' \<or> includes_str errorMessage ''504'')"

text \<open>
  \<^verbatim>\<open>createConnection\<close> is \<^verbatim>\<open>new Connection(endpoint, this.config)\<close>. The constructor
  belongs to \<^verbatim>\<open>@solana/web3.js\<close>: it sends nothing, and it throws a \<^verbatim>\<open>TypeError\<close> unless
  the endpoint matches \<^verbatim>\<open>/^https?:/\<close>.
\<close>

definition createConnection :: "string \<Rightarrow> thrown + string" where
  "createConnection endpoint =
     (if startsWith endpoint ''http:'' \<or> startsWith endpoint ''https:'' then Inr endpoint
      else Inl (Err ''Endpoint URL must start with `http:` or `https:`.''))"

text \<open>The constructor: the throw of \<^verbatim>\<open>createConnection\<close> is the throw of \<^verbatim>\<open>new\<close>.\<close>

definition new_SolanaRpcClient :: "SolanaRpcConfig \<Rightarrow> thrown + SolanaRpcClient" where
  "new_SolanaRpcClient rpcConfig =
     (let eps = httpEndpoint rpcConfig
                # (case fallbackEndpoints rpcConfig of None \<Rightarrow> [] | Some fs \<Rightarrow> fs)
      in case createConnection (hd eps) of
           Inl error \<Rightarrow> Inl error
         | Inr conn \<Rightarrow>
             Inr \<lparr> connection = conn, currentEndpointIndex = 0, endpoints = eps,
                   failoverInProgress = False \<rparr>)"

text \<open>
  \<^verbatim>\<open>failover\<close>. It does nothing when a failover is in progress or when there is no second
  endpoint. Otherwise the index advances by one modulo the number of endpoints, then a
  connection to the endpoint at the new index is made, then the new connection is probed
  with \<^verbatim>\<open>getSlot\<close>. A throw of \<^verbatim>\<open>createConnection\<close> is rethrown with the index already
  advanced, the old connection still in place and no probe sent; a failed probe is
  rethrown with the new index and the new connection in place. The \<^verbatim>\<open>finally\<close> block
  resets the flag on every path.
\<close>

definition failover ::
  "nat rpc \<Rightarrow> SolanaRpcClient \<times> net_event list \<Rightarrow> (thrown + unit) \<times> SolanaRpcClient \<times> net_event list" where
  "failover getSlot st =
     (let (c, tr) = st
      in if failoverInProgress c then (Inr (), c, tr)
         else if length (endpoints c) \<le> 1 then (Inr (), c, tr)
         else (let c = c\<lparr>failoverInProgress := True\<rparr>;
                   c = c\<lparr>currentEndpointIndex :=
                          (currentEndpointIndex c + 1) mod length (endpoints c)\<rparr>;
                   newEndpoint = endpoints c ! currentEndpointIndex c
               in (case createConnection newEndpoint of
                     Inl error \<Rightarrow> (Inl error, c\<lparr>failoverInProgress := False\<rparr>, tr)
                   | Inr conn \<Rightarrow>
                       (let c = c\<lparr>connection := conn\<rparr>
                        in (case getSlot (connection c) tr of
                              Inl error \<Rightarrow>
                                (Inl error, c\<lparr>failoverInProgress := False\<rparr>,
                                 tr @ [Probed (connection c) False])
                            | Inr slot \<Rightarrow>
                                (Inr (), c\<lparr>failoverInProgress := False\<rparr>,
                                 tr @ [Probed (connection c) True]))))))"

text \<open>
  The function that \<^verbatim>\<open>executeWithRetry\<close> hands to \<^verbatim>\<open>withRetry\<close>: one call of the operation
  and, after an error for which \<^verbatim>\<open>shouldFailover\<close> holds, a failover and one more call over
  the connection that is current then. Any other error is rethrown to \<^verbatim>\<open>withRetry\<close>.
\<close>

definition call_operation ::
  "'a rpc \<Rightarrow> SolanaRpcClient \<times> net_event list \<Rightarrow> (thrown + 'a) \<times> SolanaRpcClient \<times> net_event list" where
  "call_operation operation st =
     (let (c, tr) = st
      in (case operation (connection c) tr of
            Inl error \<Rightarrow> (Inl error, c, tr @ [Called (connection c) False])
          | Inr v \<Rightarrow> (Inr v, c, tr @ [Called (connection c) True])))"

definition attempt_operation ::
  "nat rpc \<Rightarrow> 'a rpc \<Rightarrow> SolanaRpcClient \<times> net_event list
     \<Rightarrow> (thrown + 'a) \<times> SolanaRpcClient \<times> net_event list" where
  "attempt_operation getSlot operation st =
     (case call_operation operation st of
        (Inr v, st') \<Rightarrow> (Inr v, st')
      | (Inl error, st') \<Rightarrow>
          if shouldFailover error
          then (case failover getSlot st' of
                  (Inl error', st'') \<Rightarrow> (Inl error', st'')
                | (Inr u, st'') \<Rightarrow> call_operation operation st'')
          else (Inl error, st'))"

definition sleep :: "nat \<Rightarrow> SolanaRpcClient \<times> net_event list \<Rightarrow> SolanaRpcClient \<times> net_event list" where
  "sleep ms st = (fst st, snd st @ [Slept ms])"

definition executeWithRetry ::
  "nat rpc \<Rightarrow> 'a rpc \<Rightarrow> SolanaRpcClient \<times> net_event list
     \<Rightarrow> (thrown + 'a) \<times> SolanaRpcClient \<times> net_event list" where
  "executeWithRetry getSlot operation st =
     withRetry (attempt_operation getSlot operation) sleep
       \<lparr> maxAttempts = 3, initialDelayMs = 1000, maxDelayMs = 10000, backoffMultiplier = 2 \<rparr>
       st"

text \<open>\<^verbatim>\<open>getCurrentEndpoint\<close>; an index out of range reads \<^verbatim>\<open>undefined\<close>.\<close>

definition getCurrentEndpoint :: "SolanaRpcClient \<Rightarrow> string option" where
  "getCurrentEndpoint c =
     (if currentEndpointIndex c < length (endpoints c)
      then Some (endpoints c ! currentEndpointIndex c) else None)"

section \<open>Notions used in the statements, and example inputs\<close>

definition partial_example :: PartialMarket where
  "partial_example =
     \<lparr> p_id = Some ''feed1'', p_programId = Some ''prog'', p_address = Some ''feed1'',
       p_name = None, p_description = None, p_category = None, p_status = None,
       p_outcomes = None, p_creator = None, p_resolver = None, p_resolutionSource = None,
       p_createdAt = None, p_expiresAt = None, p_resolvedAt = None, p_winningOutcome = None,
       p_totalVolume = None, p_totalLiquidity = None, p_minStake = None, p_maxStake = None,
       p_fee = None, p_metadata = None \<rparr>"

text \<open>A string is falsy in \<^verbatim>\<open>x || d\<close> when it is absent or empty.\<close>

definition missing :: "string option \<Rightarrow> bool" where
  "missing x = (x = None \<or> x = Some [])"

text \<open>\<open>clamp\<^bsub>[0,1]\<^esub>\<close>, as the specification writes it.\<close>

definition clamp01 :: "real \<Rightarrow> real" where
  "clamp01 x = (if x < 0 then 0 else if x > 1 then 1 else x)"

text \<open>
  The success ratio as the specification writes it: successes / (successes + errors), the
  denominator being 1 when there is no response at all.
\<close>

definition success_ratio :: "nat \<Rightarrow> nat \<Rightarrow> real" where
  "success_ratio successes errors =
     real successes / real (if successes + errors = 0 then 1 else successes + errors)"

definition feed_example :: SwitchboardFeedAccount where
  "feed_example =
     \<lparr> sb_name = ''Rain in Austin'', sb_metadata = [], authority = ''a1'', queueAddress = ''q1'',
       oracleRequestBatchSize = 4, minOracleResults = 3, minJobResults = 1,
       minUpdateDelaySeconds = 30, startAfter = 0, varianceThreshold = Finite 0,
       forceReportPeriod = 0, expiration = 1600000000, consecutiveFailureCount = 0,
       nextAllowedUpdateTime = 0, isLocked = True, crankAddress = ''c1'',
       latestConfirmedRound =
         \<lparr> numSuccess = 3, numError = 1, roundOpenSlot = 100, roundOpenTimestamp = 1599999000,
           result = Finite (7 / 10), stdDeviation = Finite (1 / 4), minResponse = Finite (6 / 10),
           maxResponse = Finite (8 / 10) \<rparr>,
       currentRound =
         \<lparr> numSuccess = 0, numError = 0, roundOpenSlot = 101, roundOpenTimestamp = 1599999500,
           result = Finite 0, stdDeviation = Finite 0, minResponse = Finite 0,
           maxResponse = Finite 0 \<rparr> \<rparr>"

text \<open>
  The same feed with the eight bytes of a NaN (\<^verbatim>\<open>00 00 00 00 00 00 f8 7f\<close>) where the
  standard deviation of the latest confirmed round is read.
\<close>

definition feed_nan_deviation :: SwitchboardFeedAccount where
  "feed_nan_deviation =
     feed_example\<lparr>latestConfirmedRound := (latestConfirmedRound feed_example)\<lparr>stdDeviation := NaN\<rparr>\<rparr>"

text \<open>The confidence in the metadata of the market that a call of normalize returns.\<close>

definition confidence_of :: "thrown + Market \<Rightarrow> thrown + jsval option" where
  "confidence_of res = map_sum id (\<lambda>m. map_of (metadata m) ''confidence'') res"

definition account_example :: ProgramAccountData where
  "account_example =
     \<lparr> a_programId = ''SW1TCHw1TCH7qNvdvZzTA1jjCbqRX7w9QHfxhWUq6xfU'', a_address = ''feed1'',
       a_data = [], a_slot = 0 \<rparr>"

definition hxro_example :: "64 word list \<Rightarrow> 64 word \<Rightarrow> HxroMarketRead" where
  "hxro_example pools total_pool =
     \<lparr> marketAddress = ''m1'', marketName = ''Rain tomorrow'', marketDescription = [],
       marketAuthority = ''a1'', oracleAddress = ''o1'', marketStatus = 0,
       outcomesRead = map (\<lambda>p. \<lparr> outcomeName = ''side'', pool = p, bettors = 1 \<rparr>) pools,
       totalPool = total_pool, settlementTime = 0, hx_createdAt = 0, settledAt = 0,
       hx_winningOutcome = 255, feePercent = 0, hx_minStake = 0, hx_maxStake = 0 \<rparr>"

definition hxro_account :: ProgramAccountData where
  "hxro_account =
     \<lparr> a_programId = ''HXroKJzRNV3GJxaNS5rCZRUUYFAqqCjYnA9NKCkQ8gJ8'', a_address = ''market1'',
       a_data = [], a_slot = 0 \<rparr>"

text \<open>The probabilities of the outcomes of the market that a call of normalize returns.\<close>

definition probabilities :: "thrown + Market \<Rightarrow> thrown + real list" where
  "probabilities res = map_sum id (\<lambda>m. map probability (outcomes m)) res"

text \<open>What normalize does by design on the pools of a decoded market.\<close>

definition pool_probability :: "HxroMarketRead \<Rightarrow> HxroOutcomeRead \<Rightarrow> real" where
  "pool_probability r out =
     (if unat (totalPool r) > 0 then min 1 (real (unat (pool out)) / real (unat (totalPool r)))
      else 1 / real (length (outcomesRead r)))"

text \<open>The guard of the Borsh decoder: it refuses a buffer of fewer than 8 bytes unread.\<close>

fun borsh_short :: "AccountDecoder \<Rightarrow> Buffer \<Rightarrow> bool" where
  "borsh_short (BorshAccountDecoder coder accountName) data = (length data < 8)"
| "borsh_short (ManualAccountDecoder accountType decoderFn) data = False"
| "borsh_short (MultiAccountDecoder decoders) data = False"

definition no_decoder :: "thrown + DecodedAccount" where
  "no_decoder = Inl (Err ''No decoder could successfully decode the account data'')"

definition decoder_A :: AccountDecoder where
  "decoder_A = ManualAccountDecoder ''A'' (\<lambda>data. if length data < 16 then Inl (Err ''out of range'') else Inr (JObj []))"

definition decoder_B :: AccountDecoder where
  "decoder_B = ManualAccountDecoder ''B'' (\<lambda>data. if length data < 4 then Inl (Err ''out of range'') else Inr (JObj [(''n'', JNum 1)]))"

definition lenient_borsh :: AccountDecoder where
  "lenient_borsh = BorshAccountDecoder (\<lambda>accountName data. Inr (JObj [])) ''Flag''"

text \<open>The events that a run of calls dispatches, in order.\<close>

fun dispatched :: "call list \<Rightarrow> MarketEvent list" where
  "dispatched [] = []"
| "dispatched (Dispatch ev now # calls) = ev # dispatched calls"
| "dispatched (c # calls) = dispatched calls"

text \<open>What holds of the system between any two calls.\<close>

definition idle_or_draining :: "System \<Rightarrow> bool" where
  "idle_or_draining s =
     (drains s = (if isProcessing (disp s) then 1 else 0)
      \<and> (\<not> isProcessing (disp s) \<longrightarrow> processingQueue (disp s) = [])
      \<and> map fst (deliveries s) @ processingQueue (disp s) = enqueued s)"

text \<open>
  The events that \<^verbatim>\<open>processEvent\<close> has handed to one handler, in the order of its calls.
\<close>

definition observed :: "EventHandler \<Rightarrow> System \<Rightarrow> MarketEvent list" where
  "observed h s = map fst (filter (\<lambda>(ev, hs). h \<in> set hs) (deliveries s))"

definition event_example :: "nat \<Rightarrow> MarketEvent" where
  "event_example n =
     \<lparr> ev_type = MarketUpdated, ev_timestamp = 1700000000000 + int n, ev_slot = n,
       ev_signature = None, ev_data = JNull \<rparr>"

definition config_example :: ReplayBufferOptions where
  "config_example = \<lparr> enabled = True, maxSize = 2, ttlMs = None \<rparr>"

text \<open>The options that \<^verbatim>\<open>executeWithRetry\<close> passes to \<^verbatim>\<open>withRetry\<close>.\<close>

definition rpc_options :: RetryOptions where
  "rpc_options = \<lparr> maxAttempts = 3, initialDelayMs = 1000, maxDelayMs = 10000, backoffMultiplier = 2 \<rparr>"

definition config_primary :: "string list option \<Rightarrow> SolanaRpcConfig" where
  "config_primary fallbacks =
     \<lparr> httpEndpoint = ''https://primary'', wsEndpoint = ''wss://primary'',
       fallbackEndpoints = fallbacks \<rparr>"

text \<open>The client that the constructor returns on that configuration.\<close>

definition client_example :: "string list option \<Rightarrow> SolanaRpcClient" where
  "client_example fallbacks =
     \<lparr> connection = ''https://primary'', currentEndpointIndex = 0,
       endpoints = ''https://primary'' # (case fallbacks of None \<Rightarrow> [] | Some fs \<Rightarrow> fs),
       failoverInProgress = False \<rparr>"

text \<open>An operation that the endpoint refuses as malformed, whatever happened before.\<close>

definition invalid_params :: "nat rpc" where
  "invalid_params endpoint tr = Inl (Err ''Invalid params: missing account'')"

text \<open>An operation that is refused as malformed the first time and answered afterwards.\<close>

definition invalid_once :: "nat rpc" where
  "invalid_once endpoint tr =
     (if tr = [] then Inl (Err ''Invalid params: missing account'') else Inr 7)"

text \<open>A network in which the primary endpoint is rate limited and every other one answers.\<close>

definition primary_limited :: "nat rpc" where
  "primary_limited endpoint tr =
     (if endpoint = ''https://primary'' then Inl (Err ''429 Too Many Requests'') else Inr 7)"

text \<open>The index that \<^verbatim>\<open>failover\<close> moves to: the next one, wrapping around.\<close>

definition next_index :: "SolanaRpcClient \<Rightarrow> nat" where
  "next_index c = (currentEndpointIndex c + 1) mod length (endpoints c)"

text \<open>The client after \<^verbatim>\<open>failover\<close> has switched the endpoint.\<close>

definition switched :: "SolanaRpcClient \<Rightarrow> SolanaRpcClient" where
  "switched c = c\<lparr>currentEndpointIndex := next_index c, connection := endpoints c ! next_index c\<rparr>"

text \<open>An endpoint to which a connection can be created.\<close>

definition http_url :: "string \<Rightarrow> bool" where
  "http_url endpoint = (startsWith endpoint ''http:'' \<or> startsWith endpoint ''https:'')"

text \<open>
  The classes of error that the specification calls retryable: the message names a timeout,
  the network, or one of the HTTP statuses 429, 503 and 504, in any letter case.
\<close>

definition retryable :: "thrown \<Rightarrow> bool" where
  "retryable error =
     (case message error of
        None \<Rightarrow> False
      | Some m \<Rightarrow>
          includes_str (toLowerCase m) ''timeout'' \<or> includes_str (toLowerCase m) ''network''
          \<or> includes_str (toLowerCase m) ''429'' \<or> includes_str (toLowerCase m) ''503''
          \<or> includes_str (toLowerCase m) ''504'')"

text \<open>What the liveness probe of an endpoint tells.\<close>

fun answered :: "thrown + 'a \<Rightarrow> bool" where
  "answered (Inl error) = False"
| "answered (Inr v) = True"

text \<open>A network in which no endpoint answers in time.\<close>

definition all_down :: "nat rpc" where
  "all_down endpoint tr = Inl (Err ''504 Gateway Timeout'')"

section \<open>Decimal strings are read back\<close>

lemma of_char_digit_char: "d < 10 \<Longrightarrow> (of_char (digit_char d) :: nat) = 48 + d"
  by (simp add: digit_char_def)

lemma is_digit_digit_char: "d < 10 \<Longrightarrow> is_digit (digit_char d)"
  by (simp add: is_digit_def of_char_digit_char)

lemma digit_val_digit_char: "d < 10 \<Longrightarrow> digit_val (digit_char d) = d"
  by (simp add: digit_val_def of_char_digit_char)

lemma show_nat_digits: "list_all is_digit (show_nat n)"
proof (induction n rule: show_nat.induct)
  case (1 n)
  show ?case
  proof (cases "n < 10")
    case True
    then show ?thesis by (simp add: show_nat.simps [of n] is_digit_digit_char)
  next
    case False
    with "1" show ?thesis by (simp add: show_nat.simps [of n] is_digit_digit_char)
  qed
qed

lemma show_nat_nonempty: "show_nat n \<noteq> []"
  by (subst show_nat.simps) simp

lemma parse_digits_snoc: "parse_digits (ds @ [c]) = parse_digits ds * 10 + digit_val c"
  by (simp add: parse_digits_def)

lemma parse_digits_show_nat: "parse_digits (show_nat n) = n"
proof (induction n rule: show_nat.induct)
  case (1 n)
  show ?case
  proof (cases "n < 10")
    case True
    then show ?thesis by (simp add: show_nat.simps [of n] parse_digits_def digit_val_digit_char)
  next
    case False
    with "1" show ?thesis
      by (simp add: show_nat.simps [of n] parse_digits_snoc digit_val_digit_char)
  qed
qed

lemma digit_not_space: "is_digit c \<Longrightarrow> \<not> is_space c"
  by (auto simp: is_digit_def is_space_def)

lemma digit_not_sign: "is_digit c \<Longrightarrow> c \<noteq> CHR ''-'' \<and> c \<noteq> CHR ''+''"
  by (auto simp: is_digit_def)

lemma split_sign_digits: "list_all is_digit ds \<Longrightarrow> split_sign ds = (False, ds)"
  by (cases ds) (auto dest: digit_not_sign)

lemma dropWhile_space_digits: "list_all is_digit ds \<Longrightarrow> dropWhile is_space ds = ds"
  by (cases ds) (auto dest: digit_not_space)

lemma takeWhile_digits: "list_all is_digit ds \<Longrightarrow> takeWhile is_digit ds = ds"
  by (simp add: list_all_iff)

lemma minus_not_space: "\<not> is_space CHR ''-''"
  by (simp add: is_space_def)

lemma parseInt_toString: "parseInt (bigint_toString i) = Some i"
proof (cases "i < 0")
  case True
  then show ?thesis
    by (simp add: parseInt_def bigint_toString_def minus_not_space takeWhile_digits
        show_nat_digits show_nat_nonempty parse_digits_show_nat)
next
  case False
  then show ?thesis
    by (simp add: parseInt_def bigint_toString_def dropWhile_space_digits split_sign_digits
        takeWhile_digits show_nat_digits show_nat_nonempty parse_digits_show_nat)
qed

lemma dropWhile_hd: "xs \<noteq> [] \<Longrightarrow> \<not> P (hd xs) \<Longrightarrow> dropWhile P xs = xs"
  by (cases xs) auto

lemma trim_id:
  assumes "s \<noteq> []" "\<not> is_space (hd s)" "\<not> is_space (last s)"
  shows "rev (dropWhile is_space (rev (dropWhile is_space s))) = s"
proof -
  have "dropWhile is_space s = s" using assms by (simp add: dropWhile_hd)
  moreover have "dropWhile is_space (rev s) = rev s"
    using assms by (simp add: dropWhile_hd hd_rev)
  ultimately show ?thesis by simp
qed

lemma show_nat_last: "\<not> is_space (last (show_nat n))"
proof -
  have "last (show_nat n) \<in> set (show_nat n)" by (simp add: show_nat_nonempty)
  then show ?thesis using show_nat_digits [of n] by (auto simp: list_all_iff dest: digit_not_space)
qed

lemma show_nat_hd: "\<not> is_space (hd (show_nat n))"
proof -
  have "hd (show_nat n) \<in> set (show_nat n)" by (simp add: show_nat_nonempty)
  then show ?thesis using show_nat_digits [of n] by (auto simp: list_all_iff dest: digit_not_space)
qed

lemma BigInt_literal:
  assumes "rev (dropWhile is_space (rev (dropWhile is_space s))) = s" and "s \<noteq> []"
    and "split_sign s = (neg, ds)" and "ds \<noteq> []" and "list_all is_digit ds"
  shows "BigInt s = Inr (if neg then - int (parse_digits ds) else int (parse_digits ds))"
  using assms by (simp add: BigInt_def)

lemma BigInt_toString: "BigInt (bigint_toString i) = Inr i"
proof (cases "i < 0")
  case True
  have "BigInt (CHR ''-'' # show_nat (nat (- i))) =
      Inr (if True then - int (parse_digits (show_nat (nat (- i))))
           else int (parse_digits (show_nat (nat (- i)))))"
  proof (rule BigInt_literal)
    show "rev (dropWhile is_space (rev (dropWhile is_space (CHR ''-'' # show_nat (nat (- i)))))) =
        CHR ''-'' # show_nat (nat (- i))"
      by (rule trim_id) (simp_all add: minus_not_space show_nat_nonempty show_nat_last)
  qed (simp_all add: show_nat_nonempty show_nat_digits)
  then show ?thesis using True by (simp add: bigint_toString_def parse_digits_show_nat)
next
  case False
  have "BigInt (show_nat (nat i)) =
      Inr (if False then - int (parse_digits (show_nat (nat i)))
           else int (parse_digits (show_nat (nat i))))"
  proof (rule BigInt_literal)
    show "rev (dropWhile is_space (rev (dropWhile is_space (show_nat (nat i))))) = show_nat (nat i)"
      by (rule trim_id) (simp_all add: show_nat_nonempty show_nat_last show_nat_hd)
  qed (simp_all add: show_nat_nonempty show_nat_digits split_sign_digits)
  then show ?thesis using False by (simp add: bigint_toString_def parse_digits_show_nat)
qed

lemma ms_compare: "real_of_int e < real_of_int now / 1000 \<longleftrightarrow> e * 1000 < now"
proof -
  have "real_of_int e < real_of_int now / 1000 \<longleftrightarrow> real_of_int e * 1000 < real_of_int now"
    by (simp add: pos_less_divide_eq)
  also have "\<dots> \<longleftrightarrow> real_of_int (e * 1000) < real_of_int now"
    by simp
  also have "\<dots> \<longleftrightarrow> e * 1000 < now"
    by (rule of_int_less_iff)
  finally show ?thesis .
qed

section \<open>Properties of MarketNormalizer\<close>

lemma str_or_empty: "str_or x [] = [] \<longleftrightarrow> missing x"
  by (auto simp: str_or_def missing_def split: option.splits)

lemma str_or_nonempty: "d \<noteq> [] \<Longrightarrow> str_or x d \<noteq> []"
  by (auto simp: str_or_def split: option.splits)

lemma zod_issues_empty:
  "zod_issues m = [] \<longleftrightarrow> m_id m \<noteq> [] \<and> programId m \<noteq> [] \<and> address m \<noteq> [] \<and> m_name m \<noteq> []"
  by (auto simp: zod_issues_def)

lemma marketData_name: "m_name (marketData d now) \<noteq> []"
  by (simp add: marketData_def str_or_nonempty)

lemma normalizeMarket_throws_iff:
  "(\<exists>e. normalizeMarket d now = Inl e) \<longleftrightarrow>
     missing (p_id d) \<or> missing (p_programId d) \<or> missing (p_address d)"
proof -
  have "zod_issues (marketData d now) = [] \<longleftrightarrow>
          \<not> (missing (p_id d) \<or> missing (p_programId d) \<or> missing (p_address d))"
    unfolding zod_issues_empty using marketData_name [of d now]
    by (simp add: marketData_def str_or_empty)
  then show ?thesis
    by (auto simp: normalizeMarket_def Let_def)
qed

lemma switchboard_normalize_via:
  "\<exists>d. switchboard_normalize feed acct now = normalizeMarket d now"
  unfolding switchboard_normalize_def Let_def by blast

lemma hxro_normalize_via:
  assumes "hxro_normalize market acct now = Inr m"
  shows "\<exists>d. normalizeMarket d now = Inr m"
proof (cases "BigInt (h_totalPool market)")
  case (Inl e)
  with assms show ?thesis by (simp add: hxro_normalize_def)
next
  case (Inr t)
  show ?thesis
  proof (cases "map_throw (hxro_outcome market acct t) (h_outcomes market)")
    case (Inl e)
    with assms Inr show ?thesis by (simp add: hxro_normalize_def)
  next
    case outs: (Inr outs)
    with assms Inr show ?thesis unfolding hxro_normalize_def Let_def by (simp only: sum.case) blast
  qed
qed

lemma normalizeMarket_nonempty:
  "normalizeMarket d now = Inr m \<Longrightarrow> m_id m \<noteq> [] \<and> programId m \<noteq> [] \<and> address m \<noteq> []"
  by (auto simp: normalizeMarket_def Let_def zod_issues_empty split: if_splits)

text \<open>
  Claim C10. \<^verbatim>\<open>normalizeMarket\<close> throws the ZodError whenever the id, the programId or the
  address of the partial market is missing or empty, so a market that it returns has all
  three non-empty, and so has every market that the \<^verbatim>\<open>normalize\<close> of an adapter returns;
  when the three are present it returns, whatever the name is, and a missing name is replaced
  by \<^verbatim>\<open>'Unknown Market'\<close>.
\<close>

theorem normalizeMarket_required_fields:
  "(missing (p_id d) \<or> missing (p_programId d) \<or> missing (p_address d)
      \<longrightarrow> (\<exists>paths. normalizeMarket d now = Inl (ZodError paths)))
   \<and> (\<forall>m. normalizeMarket d now = Inr m
      \<longrightarrow> m_id m \<noteq> [] \<and> programId m \<noteq> [] \<and> address m \<noteq> [])
   \<and> (\<not> missing (p_id d) \<and> \<not> missing (p_programId d) \<and> \<not> missing (p_address d)
      \<longrightarrow> (\<exists>m. normalizeMarket d now = Inr m
            \<and> (missing (p_name d) \<longrightarrow> m_name m = ''Unknown Market'')))
   \<and> (\<forall>m. switchboard_normalize feed acct now = Inr m
      \<longrightarrow> m_id m \<noteq> [] \<and> programId m \<noteq> [] \<and> address m \<noteq> [])
   \<and> (\<forall>m. hxro_normalize market acct now = Inr m
      \<longrightarrow> m_id m \<noteq> [] \<and> programId m \<noteq> [] \<and> address m \<noteq> [])"
proof -
  have throws: "(\<exists>e. normalizeMarket d now = Inl e) \<longleftrightarrow>
      missing (p_id d) \<or> missing (p_programId d) \<or> missing (p_address d)"
    by (rule normalizeMarket_throws_iff)
  have shape: "normalizeMarket d now = Inl e \<Longrightarrow> \<exists>paths. e = ZodError paths" for e
    by (auto simp: normalizeMarket_def Let_def split: if_splits)
  have ret: "normalizeMarket d now = Inr m \<Longrightarrow> m = marketData d now" for m
    by (auto simp: normalizeMarket_def Let_def split: if_splits)
  have name: "missing (p_name d) \<Longrightarrow> m_name (marketData d now) = ''Unknown Market''"
    by (auto simp: marketData_def str_or_def missing_def)
  have 1: "\<exists>paths. normalizeMarket d now = Inl (ZodError paths)"
    if "missing (p_id d) \<or> missing (p_programId d) \<or> missing (p_address d)"
  proof -
    from that obtain e where "normalizeMarket d now = Inl e" using throws by blast
    then show ?thesis using shape by blast
  qed
  have 2: "m_id m \<noteq> [] \<and> programId m \<noteq> [] \<and> address m \<noteq> []"
    if "normalizeMarket d now = Inr m" for m
    using that by (rule normalizeMarket_nonempty)
  have 3: "\<exists>m. normalizeMarket d now = Inr m
            \<and> (missing (p_name d) \<longrightarrow> m_name m = ''Unknown Market'')"
    if "\<not> missing (p_id d) \<and> \<not> missing (p_programId d) \<and> \<not> missing (p_address d)"
  proof -
    from that have "\<not> (\<exists>e. normalizeMarket d now = Inl e)" using throws by blast
    then obtain m where m: "normalizeMarket d now = Inr m"
      by (cases "normalizeMarket d now") auto
    then have "m = marketData d now" using ret by blast
    with m name show ?thesis by blast
  qed
  have 4: "m_id m \<noteq> [] \<and> programId m \<noteq> [] \<and> address m \<noteq> []"
    if sb: "switchboard_normalize feed acct now = Inr m" for m
  proof -
    obtain d' where "switchboard_normalize feed acct now = normalizeMarket d' now"
      using switchboard_normalize_via by blast
    with sb show ?thesis by (simp add: normalizeMarket_nonempty)
  qed
  have 5: "m_id m \<noteq> [] \<and> programId m \<noteq> [] \<and> address m \<noteq> []"
    if hx: "hxro_normalize market acct now = Inr m" for m
  proof -
    obtain d' where "normalizeMarket d' now = Inr m"
      using hxro_normalize_via [OF hx] by blast
    then show ?thesis by (rule normalizeMarket_nonempty)
  qed
  from 1 2 3 4 5 show ?thesis by blast
qed

theorem normalizeMarket_required_fields_witness:
  "(\<exists>paths. normalizeMarket (partial_example\<lparr>p_id := Some []\<rparr>) 1700000000000 = Inl (ZodError paths))
   \<and> (\<exists>m. normalizeMarket partial_example 1700000000000 = Inr m
         \<and> m_name m = ''Unknown Market'' \<and> m_id m \<noteq> [] \<and> programId m \<noteq> []
         \<and> address m \<noteq> [])"
proof -
  have bad: "missing (p_id (partial_example\<lparr>p_id := Some []\<rparr>))"
    by (simp add: missing_def)
  have good: "\<not> missing (p_id partial_example) \<and> \<not> missing (p_programId partial_example)
      \<and> \<not> missing (p_address partial_example)" and name: "missing (p_name partial_example)"
    by (simp_all add: missing_def partial_example_def)
  from normalizeMarket_required_fields [of "partial_example\<lparr>p_id := Some []\<rparr>" 1700000000000] bad
  have 1: "\<exists>paths. normalizeMarket (partial_example\<lparr>p_id := Some []\<rparr>) 1700000000000
      = Inl (ZodError paths)"
    by blast
  from normalizeMarket_required_fields [of partial_example 1700000000000] good name
  have 2: "\<exists>m. normalizeMarket partial_example 1700000000000 = Inr m
         \<and> m_name m = ''Unknown Market'' \<and> m_id m \<noteq> [] \<and> programId m \<noteq> []
         \<and> address m \<noteq> []"
    by blast
  from 1 2 show ?thesis by blast
qed

section \<open>Properties of the Switchboard adapter\<close>

lemma feed_status_eq:
  "feed_status locked (Some e) now =
     (if 0 < e \<and> e * 1000 < now then Expired else if locked then Paused else Active)"
  by (simp add: feed_status_def ms_compare)

lemma normalizeMarket_Inr: "normalizeMarket d now = Inr m \<Longrightarrow> m = marketData d now"
  by (auto simp: normalizeMarket_def Let_def split: if_splits)

lemma normalizeMarket_returns:
  "p_id d = Some i \<Longrightarrow> i \<noteq> [] \<Longrightarrow> p_programId d = Some p \<Longrightarrow> p \<noteq> [] \<Longrightarrow>
   p_address d = Some a \<Longrightarrow> a \<noteq> [] \<Longrightarrow> normalizeMarket d now = Inr (marketData d now)"
  using marketData_name [of d now]
  by (simp add: normalizeMarket_def Let_def zod_issues_empty)
     (simp add: marketData_def str_or_def)

lemma marketData_status: "status (marketData d now) = (case p_status d of None \<Rightarrow> Active | Some s \<Rightarrow> s)"
  by (simp add: marketData_def)

lemma marketData_metadata: "metadata (marketData d now) = (case p_metadata d of None \<Rightarrow> [] | Some md \<Rightarrow> md)"
  by (simp add: marketData_def)

lemma marketData_outcomes: "outcomes (marketData d now) = (case p_outcomes d of None \<Rightarrow> [] | Some os \<Rightarrow> os)"
  by (simp add: marketData_def)

lemma switchboard_normalize_status:
  assumes "switchboard_normalize feed acct now = Inr m"
  shows "status m = feed_status (f_isLocked feed) (parseInt (f_expiration feed)) now"
proof -
  obtain d where d: "switchboard_normalize feed acct now = normalizeMarket d now"
    and st: "p_status d = Some (feed_status (f_isLocked feed) (parseInt (f_expiration feed)) now)"
    by (simp add: switchboard_normalize_def Let_def)
  from assms d have "m = marketData d now" by (simp add: normalizeMarket_Inr)
  then show ?thesis by (simp add: marketData_status st)
qed

lemma switchboard_normalize_returns:
  assumes "a_address acct \<noteq> []" and "a_programId acct \<noteq> []"
  shows "\<exists>m. switchboard_normalize feed acct now = Inr m"
proof -
  obtain d where d: "switchboard_normalize feed acct now = normalizeMarket d now"
    and "p_id d = Some (a_address acct)" "p_programId d = Some (a_programId acct)"
      "p_address d = Some (a_address acct)"
    by (simp add: switchboard_normalize_def Let_def)
  then show ?thesis using assms normalizeMarket_returns [of d] by simp
qed

lemma switchboard_normalize_confidence:
  assumes "switchboard_normalize feed acct now = Inr m"
  shows "map_of (metadata m) ''confidence'' = Some (number_val (calculateConfidence feed))"
proof -
  obtain d md where d: "switchboard_normalize feed acct now = normalizeMarket d now"
    and md: "p_metadata d = Some md"
      "map_of md ''confidence'' = Some (number_val (calculateConfidence feed))"
    by (simp add: switchboard_normalize_def Let_def)
  from assms d have "m = marketData d now" by (simp add: normalizeMarket_Inr)
  then show ?thesis by (simp add: marketData_metadata md)
qed

lemma clamp01_max_min: "max 0 (min 1 x) = clamp01 x"
  by (simp add: clamp01_def max_def min_def)

lemma success_ratio_code:
  "real s / (if real s + real e = 0 then 1 else real s + real e) = success_ratio s e"
proof -
  have "real s + real e = 0 \<longleftrightarrow> s + e = 0"
    by (metis of_nat_0_eq_iff of_nat_add)
  then show ?thesis by (simp add: success_ratio_def)
qed

lemma Math_max_Finite: "Math_max (Finite x) (Finite y) = Finite (max x y)"
  by (simp add: Math_max_def max_def)

lemma Math_min_Finite: "Math_min (Finite x) (Finite y) = Finite (min x y)"
  by (simp add: Math_min_def min_def)

lemma js_sub_Finite: "js_sub (Finite x) (Finite y) = Finite (x - y)"
  by (simp add: js_sub_def)

text \<open>On a standard deviation that is a finite number the code computes the formula.\<close>

lemma calculateConfidence_Finite:
  assumes "fr_stdDeviation (f_latestConfirmedRound feed) = Finite sd"
  shows "calculateConfidence feed =
     Finite (clamp01 (0.6 * success_ratio (unat (fr_numSuccess (f_latestConfirmedRound feed)))
                              (unat (fr_numError (f_latestConfirmedRound feed)))
                      + 0.4 * max 0 (1 - sd)))"
proof -
  define s where "s = unat (fr_numSuccess (f_latestConfirmedRound feed))"
  define e where "e = unat (fr_numError (f_latestConfirmedRound feed))"
  define p where "p = max 0 (1 - sd)"
  have "calculateConfidence feed =
      Finite (max 0 (min 1 (real s / (if real s + real e = 0 then 1 else real s + real e) * 0.6
                            + p * 0.4)))"
    by (simp add: calculateConfidence_def Let_def assms js_sub_Finite Math_max_Finite
        Math_min_Finite s_def e_def p_def)
  also have "\<dots> = Finite (clamp01 (success_ratio s e * 0.6 + p * 0.4))"
    by (simp only: clamp01_max_min success_ratio_code)
  also have "success_ratio s e * 0.6 + p * 0.4 = 0.6 * success_ratio s e + 0.4 * p"
    by (simp only: mult.commute)
  finally show ?thesis by (simp only: s_def e_def p_def)
qed

text \<open>
  A standard deviation of \<open>+\<infinity>\<close> gives the penalty term 0 and one of \<open>-\<infinity>\<close> the
  confidence 1, as the formula read on the extended reals does.
\<close>

lemma calculateConfidence_PosInfinity:
  assumes "fr_stdDeviation (f_latestConfirmedRound feed) = PosInfinity"
  shows "calculateConfidence feed =
     Finite (clamp01 (0.6 * success_ratio (unat (fr_numSuccess (f_latestConfirmedRound feed)))
                              (unat (fr_numError (f_latestConfirmedRound feed)))))"
proof -
  define s where "s = unat (fr_numSuccess (f_latestConfirmedRound feed))"
  define e where "e = unat (fr_numError (f_latestConfirmedRound feed))"
  have "calculateConfidence feed =
      Finite (max 0 (min 1 (real s / (if real s + real e = 0 then 1 else real s + real e) * 0.6)))"
    by (simp add: calculateConfidence_def Let_def assms js_sub_def Math_max_def
        Math_max_Finite Math_min_Finite s_def e_def)
  also have "\<dots> = Finite (clamp01 (success_ratio s e * 0.6))"
    by (simp only: clamp01_max_min success_ratio_code)
  also have "success_ratio s e * 0.6 = 0.6 * success_ratio s e"
    by (simp only: mult.commute)
  finally show ?thesis by (simp only: s_def e_def)
qed

lemma calculateConfidence_NegInfinity:
  "fr_stdDeviation (f_latestConfirmedRound feed) = NegInfinity \<Longrightarrow>
   calculateConfidence feed = Finite 1"
  by (simp add: calculateConfidence_def Let_def js_sub_def Math_max_def Math_min_def)

text \<open>
  On a standard deviation that is NaN, \<^verbatim>\<open>1 - round.stdDeviation\<close> is NaN, \<^verbatim>\<open>Math.max\<close>
  returns NaN, the sum is NaN, and \<^verbatim>\<open>Math.min\<close> and \<^verbatim>\<open>Math.max\<close> return NaN again.
\<close>

lemma calculateConfidence_NaN:
  "fr_stdDeviation (f_latestConfirmedRound feed) = NaN \<Longrightarrow> calculateConfidence feed = NaN"
  by (simp add: calculateConfidence_def Let_def js_sub_def Math_max_def Math_min_def)

lemma switchboard_confidence_Finite:
  assumes "switchboard_normalize (serializeFeed a) acct now = Inr m"
    and "stdDeviation (latestConfirmedRound a) = Finite sd"
  shows "map_of (metadata m) ''confidence'' =
     Some (JNum (clamp01 (0.6 * success_ratio (unat (numSuccess (latestConfirmedRound a)))
                                 (unat (numError (latestConfirmedRound a)))
                          + 0.4 * max 0 (1 - sd))))"
proof -
  have "fr_stdDeviation (f_latestConfirmedRound (serializeFeed a)) = Finite sd"
    using assms(2) by (simp add: serializeFeed_def serializeRound_def)
  then have "calculateConfidence (serializeFeed a) =
     Finite (clamp01 (0.6 * success_ratio (unat (numSuccess (latestConfirmedRound a)))
                              (unat (numError (latestConfirmedRound a)))
                      + 0.4 * max 0 (1 - sd)))"
    by (simp add: calculateConfidence_Finite) (simp add: serializeFeed_def serializeRound_def)
  then show ?thesis
    using switchboard_normalize_confidence [OF assms(1)] by simp
qed

lemma switchboard_confidence_NaN:
  assumes "switchboard_normalize (serializeFeed a) acct now = Inr m"
    and "stdDeviation (latestConfirmedRound a) = NaN"
  shows "map_of (metadata m) ''confidence'' = Some JNaN"
proof -
  have "fr_stdDeviation (f_latestConfirmedRound (serializeFeed a)) = NaN"
    using assms(2) by (simp add: serializeFeed_def serializeRound_def)
  then have "calculateConfidence (serializeFeed a) = NaN"
    by (rule calculateConfidence_NaN)
  then show ?thesis
    using switchboard_normalize_confidence [OF assms(1)] by simp
qed

text \<open>
  Claim C1, as the code has it. The expiration test is the second of two \<^verbatim>\<open>if\<close>
  statements and overwrites the status set by the lock test: the market of a decoded feed is
  \<^verbatim>\<open>expired\<close> whenever the expiration timestamp is positive and in the past, locked or
  not; it is \<^verbatim>\<open>paused\<close> when the feed is locked and not expired in that sense, and
  \<^verbatim>\<open>active\<close> otherwise.
\<close>

theorem switchboard_status:
  "switchboard_normalize (serializeFeed a) acct now = Inr m \<Longrightarrow>
   status m = (if 0 < sint (expiration a) \<and> sint (expiration a) * 1000 < now then Expired
               else if isLocked a then Paused else Active)"
proof -
  assume returned: "switchboard_normalize (serializeFeed a) acct now = Inr m"
  have "parseInt (f_expiration (serializeFeed a)) = Some (sint (expiration a))"
    by (simp add: serializeFeed_def parseInt_toString)
  moreover have "f_isLocked (serializeFeed a) = isLocked a"
    by (simp add: serializeFeed_def)
  ultimately have "status m = feed_status (isLocked a) (Some (sint (expiration a))) now"
    using switchboard_normalize_status [OF returned] by simp
  then show ?thesis by (simp only: feed_status_eq)
qed

theorem switchboard_status_witness:
  "\<exists>m. switchboard_normalize (serializeFeed (feed_example\<lparr>expiration := 0\<rparr>)) account_example
          1700000000000 = Inr m \<and> status m = Paused"
proof -
  obtain m where m: "switchboard_normalize (serializeFeed (feed_example\<lparr>expiration := 0\<rparr>))
      account_example 1700000000000 = Inr m"
    using switchboard_normalize_returns [of account_example] by (auto simp: account_example_def)
  from switchboard_status [OF m] have "status m = Paused"
    by (simp add: feed_example_def)
  with m show ?thesis by blast
qed

text \<open>
  Claim C1 as stated fails: a locked feed whose expiration (September 2020) has passed is
  normalized to an \<^verbatim>\<open>expired\<close> market, not to a \<^verbatim>\<open>paused\<close> one.
\<close>

theorem locked_expired_feed_counterexample:
  "isLocked feed_example \<and>
   map_sum id status (switchboard_normalize (serializeFeed feed_example) account_example 1700000000000)
     = Inr Expired"
proof -
  obtain m where m: "switchboard_normalize (serializeFeed feed_example)
      account_example 1700000000000 = Inr m"
    using switchboard_normalize_returns [of account_example] by (auto simp: account_example_def)
  from switchboard_normalize_status [OF m] have "status m = Expired"
    by (simp add: serializeFeed_def parseInt_toString feed_status_eq feed_example_def)
  with m show ?thesis by (simp add: feed_example_def)
qed

text \<open>
  Claim C9, at a feed that the decoder returns and on which it fails. The account of
  \<open>feed_nan_deviation\<close> has 3 successes and 1 error in its latest confirmed round and the
  bytes of a NaN as its standard deviation. The claim gives it a confidence between 0 and 1,
  the clamped value of \<open>0.6 \<times> 3/4 + 0.4 \<times> max 0 (1 - stdDeviation)\<close>. The code stores NaN:
  the value under \<^verbatim>\<open>confidence\<close> in the metadata of the market that normalize returns is
  not a number, where the same feed with the standard deviation 0.25 gets 0.75.
\<close>

theorem nan_deviation_confidence:
  "stdDeviation (latestConfirmedRound feed_nan_deviation) = NaN
   \<and> numSuccess (latestConfirmedRound feed_nan_deviation) = 3
   \<and> numError (latestConfirmedRound feed_nan_deviation) = 1
   \<and> confidence_of (switchboard_normalize (serializeFeed feed_nan_deviation) account_example
        1700000000000) = Inr (Some JNaN)
   \<and> confidence_of (switchboard_normalize (serializeFeed feed_example) account_example
        1700000000000) = Inr (Some (JNum (3 / 4)))"
proof -
  obtain m where m: "switchboard_normalize (serializeFeed feed_nan_deviation)
      account_example 1700000000000 = Inr m"
    using switchboard_normalize_returns [of account_example] by (auto simp: account_example_def)
  have nan: "stdDeviation (latestConfirmedRound feed_nan_deviation) = NaN"
    by (simp add: feed_nan_deviation_def)
  from switchboard_confidence_NaN [OF m nan]
  have 1: "confidence_of (switchboard_normalize (serializeFeed feed_nan_deviation) account_example
        1700000000000) = Inr (Some JNaN)"
    by (simp add: confidence_of_def m)
  obtain m' where m': "switchboard_normalize (serializeFeed feed_example)
      account_example 1700000000000 = Inr m'"
    using switchboard_normalize_returns [of account_example] by (auto simp: account_example_def)
  have "stdDeviation (latestConfirmedRound feed_example) = Finite (1 / 4)"
    by (simp add: feed_example_def)
  from switchboard_confidence_Finite [OF m' this]
  have "map_of (metadata m') ''confidence'' = Some (JNum (3 / 4))"
    by (simp add: feed_example_def success_ratio_def clamp01_def)
  then have 2: "confidence_of (switchboard_normalize (serializeFeed feed_example) account_example
        1700000000000) = Inr (Some (JNum (3 / 4)))"
    by (simp add: confidence_of_def m')
  from 1 2 nan show ?thesis by (simp add: feed_nan_deviation_def feed_example_def)
qed

section \<open>Properties of the Hxro adapter\<close>

lemma map_throw_Inr: "(\<And>x. x \<in> set xs \<Longrightarrow> f x = Inr (g x)) \<Longrightarrow> map_throw f xs = Inr (map g xs)"
  by (induction xs) auto

lemma outcome_probability_Finite:
  "\<exists>p. outcome_probability x = Finite p \<and> 0 \<le> p \<and> p \<le> 1"
proof (cases x)
  case None
  then show ?thesis by (simp add: outcome_probability_def number_or_def)
next
  case (Some n)
  then show ?thesis
    by (cases n) (auto simp: outcome_probability_def number_or_def Let_def)
qed

lemma normalizeOutcome_probability:
  "po_probability d = Some (Finite p) \<Longrightarrow> 0 \<le> p \<Longrightarrow> p \<le> 1 \<Longrightarrow>
   probability (normalizeOutcome d) = p"
  by (simp add: normalizeOutcome_def outcome_probability_def Let_def number_or_def)

text \<open>The probability that the callback of normalize gives to an outcome with a readable pool.\<close>

lemma hxro_outcome_probability:
  assumes "BigInt (ho_pool outcome) = Inr p" and "0 \<le> p" and "0 \<le> t"
    and "0 < length (h_outcomes market)"
  shows "\<exists>out. hxro_outcome market acct t outcome = Inr out \<and>
           probability out = (if t > 0 then min 1 (real_of_int p / real_of_int t)
                              else 1 / real (length (h_outcomes market)))"
proof -
  define prob where "prob = (if t > 0 then real_of_int p / real_of_int t
                             else 1 / real (length (h_outcomes market)))"
  have nonneg: "0 \<le> prob" using assms by (simp add: prob_def)
  have "1 \<le> length (h_outcomes market)" using assms(4) by (cases "h_outcomes market") simp_all
  then have "1 \<le> real (length (h_outcomes market))" by simp
  then have "1 / real (length (h_outcomes market)) \<le> 1" by (simp add: divide_le_eq_1)
  then have small: "\<not> t > 0 \<Longrightarrow> prob \<le> 1" by (simp add: prob_def)
  have clamp: "max 0 (min 1 prob) = (if t > 0 then min 1 (real_of_int p / real_of_int t)
                              else 1 / real (length (h_outcomes market)))"
    using nonneg small by (auto simp: prob_def max_def min_def)
  obtain d where d: "hxro_outcome market acct t outcome = Inr (normalizeOutcome d)"
    and pd: "po_probability d = Some (Finite (max 0 (min 1 prob)))"
    using assms(1) by (simp add: hxro_outcome_def Let_def prob_def)
  have "probability (normalizeOutcome d) = max 0 (min 1 prob)"
    by (rule normalizeOutcome_probability [OF pd]) (simp_all add: max_def min_def)
  with d clamp show ?thesis by simp
qed


lemma uint_pos_iff: "0 < uint (w :: 64 word) \<longleftrightarrow> 0 < unat w"
proof -
  have "0 < int (unat w) \<longleftrightarrow> 0 < unat w" by (rule of_nat_0_less_iff)
  then show ?thesis by (simp only: uint_nat)
qed

lemma decodedMarket_outcomes:
  "h_outcomes (decodedMarket r) =
     map (\<lambda>(i, out). decodedOutcome (totalPool r) i out)
       (zip [0 ..< length (outcomesRead r)] (outcomesRead r))"
  by (simp add: decodedMarket_def)

lemma decodedMarket_length: "length (h_outcomes (decodedMarket r)) = length (outcomesRead r)"
  by (simp add: decodedMarket_outcomes)

lemma decodedMarket_totalPool: "BigInt (h_totalPool (decodedMarket r)) = Inr (uint (totalPool r))"
  by (simp add: decodedMarket_def BigInt_toString)

lemma decodedOutcome_pool: "BigInt (ho_pool (decodedOutcome t i out)) = Inr (uint (pool out))"
  by (simp add: decodedOutcome_def BigInt_toString)

lemma hxro_outcomes_decoded:
  "\<exists>outs. map_throw (hxro_outcome (decodedMarket r) acct (uint (totalPool r)))
             (h_outcomes (decodedMarket r)) = Inr outs
        \<and> map probability outs = map (pool_probability r) (outcomesRead r)"
proof -
  define market where "market = decodedMarket r"
  define t where "t = uint (totalPool r)"
  define f where "f = hxro_outcome market acct t"
  define g where "g = (\<lambda>x. SOME out. f x = Inr out)"
  have each: "\<exists>out. f (decodedOutcome (totalPool r) i out') = Inr out
        \<and> probability out = pool_probability r out'"
    if "out' \<in> set (outcomesRead r)" for i out'
  proof -
    have pos: "0 < length (h_outcomes market)"
      using that by (auto simp: market_def decodedMarket_length)
    have eq: "(if t > 0 then min 1 (real_of_int (uint (pool out')) / real_of_int t)
               else 1 / real (length (h_outcomes market))) = pool_probability r out'"
    proof (cases "0 < unat (totalPool r)")
      case True
      then have tpos: "t > 0" unfolding t_def by (simp only: uint_pos_iff)
      have eq1: "real_of_int (uint (pool out')) = real (unat (pool out'))" by simp
      have eq2: "real_of_int t = real (unat (totalPool r))" unfolding t_def by simp
      have "pool_probability r out' = min 1 (real (unat (pool out')) / real (unat (totalPool r)))"
        using True by (simp only: pool_probability_def if_True)
      moreover have "(if t > 0 then min 1 (real_of_int (uint (pool out')) / real_of_int t)
               else 1 / real (length (h_outcomes market))) =
            min 1 (real (unat (pool out')) / real (unat (totalPool r)))"
        using tpos by (simp only: if_True eq1 eq2)
      ultimately show ?thesis by (rule ssubst)
    next
      case False
      then have tz: "\<not> t > 0" unfolding t_def by (simp only: uint_pos_iff not_False_eq_True)
      have len: "length (h_outcomes market) = length (outcomesRead r)"
        unfolding market_def by (rule decodedMarket_length)
      have "pool_probability r out' = 1 / real (length (outcomesRead r))"
        using False by (simp only: pool_probability_def if_False not_False_eq_True)
      moreover have "(if t > 0 then min 1 (real_of_int (uint (pool out')) / real_of_int t)
               else 1 / real (length (h_outcomes market))) = 1 / real (length (outcomesRead r))"
        using tz by (simp only: if_False len not_False_eq_True)
      ultimately show ?thesis by (rule ssubst)
    qed
    have "\<exists>out. hxro_outcome market acct t (decodedOutcome (totalPool r) i out') = Inr out \<and>
           probability out = (if t > 0 then min 1 (real_of_int (uint (pool out')) / real_of_int t)
                              else 1 / real (length (h_outcomes market)))"
      by (rule hxro_outcome_probability [OF decodedOutcome_pool _ _ pos]) (simp_all add: t_def)
    then show ?thesis unfolding f_def by (simp only: eq)
  qed
  have fg: "f x = Inr (g x)" if "x \<in> set (h_outcomes market)" for x
  proof -
    from that obtain i out' where "x = decodedOutcome (totalPool r) i out'"
      and "out' \<in> set (outcomesRead r)"
      by (auto simp: market_def decodedMarket_outcomes dest: set_zip_rightD)
    with each obtain out where "f x = Inr out" by blast
    then show ?thesis unfolding g_def by (rule someI)
  qed
  have res: "map_throw f (h_outcomes market) = Inr (map g (h_outcomes market))"
    by (rule map_throw_Inr) (rule fg)
  have probs: "map probability (map g (h_outcomes market)) = map (pool_probability r) (outcomesRead r)"
  proof -
    have "probability (g (decodedOutcome (totalPool r) i out')) = pool_probability r out'"
      if "out' \<in> set (outcomesRead r)" for i out'
    proof -
      from each [OF that, of i] obtain out where
        o: "f (decodedOutcome (totalPool r) i out') = Inr out"
        "probability out = pool_probability r out'" by blast
      have "decodedOutcome (totalPool r) i out' \<in> set (h_outcomes market) \<Longrightarrow> True" by simp
      have "f (decodedOutcome (totalPool r) i out') = Inr (g (decodedOutcome (totalPool r) i out'))"
        unfolding g_def using o(1) by (rule someI)
      with o show ?thesis by simp
    qed
    then have "map probability (map g (h_outcomes market)) =
        map (\<lambda>(i, out'). pool_probability r out') (zip [0 ..< length (outcomesRead r)] (outcomesRead r))"
      by (auto simp: market_def decodedMarket_outcomes dest: set_zip_rightD)
    also have "\<dots> = map (pool_probability r) (map snd (zip [0 ..< length (outcomesRead r)] (outcomesRead r)))"
      by (simp only: map_map comp_def case_prod_unfold)
    also have "map snd (zip [0 ..< length (outcomesRead r)] (outcomesRead r)) = outcomesRead r"
      by (rule map_snd_zip) simp
    finally show ?thesis .
  qed
  from res probs show ?thesis unfolding f_def market_def t_def by blast
qed


lemma hxro_normalize_decoded:
  assumes "hxro_normalize (decodedMarket r) acct now = Inr m"
  shows "map probability (outcomes m) = map (pool_probability r) (outcomesRead r)"
proof -
  obtain outs where outs: "map_throw (hxro_outcome (decodedMarket r) acct (uint (totalPool r)))
             (h_outcomes (decodedMarket r)) = Inr outs"
    and probs: "map probability outs = map (pool_probability r) (outcomesRead r)"
    using hxro_outcomes_decoded by blast
  obtain d where d: "hxro_normalize (decodedMarket r) acct now = normalizeMarket d now"
    and po: "p_outcomes d = Some outs"
    by (simp add: hxro_normalize_def Let_def decodedMarket_totalPool outs)
  from assms d have "m = marketData d now" by (simp add: normalizeMarket_Inr)
  then show ?thesis by (simp add: marketData_outcomes po probs)
qed

lemma hxro_normalize_returns:
  assumes "a_address acct \<noteq> []" and "a_programId acct \<noteq> []"
  shows "\<exists>m. hxro_normalize (decodedMarket r) acct now = Inr m"
proof -
  obtain outs where outs: "map_throw (hxro_outcome (decodedMarket r) acct (uint (totalPool r)))
             (h_outcomes (decodedMarket r)) = Inr outs"
    using hxro_outcomes_decoded by blast
  obtain d where d: "hxro_normalize (decodedMarket r) acct now = normalizeMarket d now"
    and "p_id d = Some (a_address acct)" "p_programId d = Some (a_programId acct)"
      "p_address d = Some (a_address acct)"
    by (simp add: hxro_normalize_def Let_def decodedMarket_totalPool outs)
  then show ?thesis using assms normalizeMarket_returns [of d] by simp
qed

text \<open>
  Claim C4, as the code has it. For a decoded market with outcome pools \<open>p\<^sub>1 \<dots> p\<^sub>N\<close> and
  total pool \<open>T\<close>, normalize gives outcome \<open>i\<close> the probability \<open>min 1 (p\<^sub>i / T)\<close> when
  \<open>T > 0\<close> (which is \<open>p\<^sub>i / T\<close> whenever \<open>p\<^sub>i \<le> T\<close>) and \<open>1 / N\<close> when \<open>T = 0\<close>.
\<close>

theorem hxro_probabilities:
  "hxro_normalize (decodedMarket r) acct now = Inr m \<Longrightarrow>
   map probability (outcomes m) =
     map (\<lambda>out. if unat (totalPool r) > 0
                 then min 1 (real (unat (pool out)) / real (unat (totalPool r)))
                 else 1 / real (length (outcomesRead r)))
       (outcomesRead r)"
proof -
  assume returned: "hxro_normalize (decodedMarket r) acct now = Inr m"
  then have "map probability (outcomes m) = map (pool_probability r) (outcomesRead r)"
    by (rule hxro_normalize_decoded)
  then show ?thesis by (simp add: pool_probability_def [abs_def])
qed

lemma hxro_example_probabilities:
  "probabilities (hxro_normalize (decodedMarket (hxro_example pools t)) hxro_account now) =
     Inr (map (pool_probability (hxro_example pools t)) (outcomesRead (hxro_example pools t)))"
proof -
  obtain m where m: "hxro_normalize (decodedMarket (hxro_example pools t)) hxro_account now = Inr m"
    using hxro_normalize_returns [of hxro_account] by (auto simp: hxro_account_def)
  then show ?thesis by (simp add: probabilities_def hxro_normalize_decoded)
qed

text \<open>
  The two examples of the claim: pools 100 and 300 with total pool 400 give 0.25 and 0.75;
  a total pool of 0 gives 0.5 to each of two outcomes.
\<close>

theorem hxro_probabilities_witness:
  "probabilities (hxro_normalize (decodedMarket (hxro_example [100, 300] 400)) hxro_account
      1700000000000) = Inr [1 / 4, 3 / 4]
   \<and> probabilities (hxro_normalize (decodedMarket (hxro_example [0, 0] 0)) hxro_account
      1700000000000) = Inr [1 / 2, 1 / 2]"
proof -
  obtain m where m: "hxro_normalize (decodedMarket (hxro_example [100, 300] 400)) hxro_account
      1700000000000 = Inr m"
    using hxro_normalize_returns [of hxro_account] by (auto simp: hxro_account_def)
  obtain m' where m': "hxro_normalize (decodedMarket (hxro_example [0, 0] 0)) hxro_account
      1700000000000 = Inr m'"
    using hxro_normalize_returns [of hxro_account] by (auto simp: hxro_account_def)
  from hxro_probabilities [OF m] have "map probability (outcomes m) = [1 / 4, 3 / 4]"
    by (simp add: hxro_example_def)
  moreover from hxro_probabilities [OF m'] have "map probability (outcomes m') = [1 / 2, 1 / 2]"
    by (simp add: hxro_example_def)
  ultimately show ?thesis by (simp add: probabilities_def m m')
qed

text \<open>
  Claim C4 as stated fails where an outcome pool exceeds the total pool field: with pools 300
  and 100 and total pool 200 the quotients are 1.5 and 0.5, and normalize gives 1 and 0.5.
\<close>

theorem overfull_pool_counterexample:
  "0 < unat (totalPool (hxro_example [300, 100] 200))
   \<and> map (\<lambda>out. real (unat (pool out)) / real (unat (totalPool (hxro_example [300, 100] 200))))
        (outcomesRead (hxro_example [300, 100] 200)) = [3 / 2, 1 / 2]
   \<and> probabilities (hxro_normalize (decodedMarket (hxro_example [300, 100] 200)) hxro_account
        1700000000000) = Inr [1, 1 / 2]"
  by (simp add: hxro_example_probabilities) (simp add: hxro_example_def pool_probability_def)

section \<open>Properties of the account decoders\<close>

lemma validate_some_total:
  "(\<And>d. d \<in> set ds \<Longrightarrow> \<exists>b. validate d data = Inr b) \<Longrightarrow> \<exists>b. validate_some ds data = Inr b"
proof (induction ds)
  case Nil
  show ?case by (rule exI [of _ False]) simp
next
  case (Cons d ds)
  then obtain b where b: "validate d data = Inr b" by auto
  from Cons obtain b' where "validate_some ds data = Inr b'" by auto
  with b show ?case by (cases b) auto
qed

lemma validate_some_iff:
  "(\<And>d. d \<in> set ds \<Longrightarrow> \<exists>b. validate d data = Inr b) \<Longrightarrow>
   validate_some ds data = Inr (\<exists>d \<in> set ds. validate d data = Inr True)"
proof (induction ds)
  case Nil
  then show ?case by simp
next
  case (Cons d ds)
  then obtain b where b: "validate d data = Inr b" by auto
  from Cons have "validate_some ds data = Inr (\<exists>d \<in> set ds. validate d data = Inr True)"
    by simp
  with b show ?case by (cases b) auto
qed

lemma decode_first_find:
  "(\<And>d. d \<in> set ds \<Longrightarrow> validate d data = Inr True \<Longrightarrow> \<exists>r. decode d data = Inr r) \<Longrightarrow>
   decode_first ds data =
     (case find (\<lambda>d. validate d data = Inr True) ds of
        Some d \<Rightarrow> decode d data
      | None \<Rightarrow> no_decoder)"
proof (induction ds)
  case Nil
  then show ?case by (simp add: no_decoder_def)
next
  case (Cons d ds)
  have rest: "decode_first ds data =
     (case find (\<lambda>d. validate d data = Inr True) ds of
        Some d \<Rightarrow> decode d data
      | None \<Rightarrow> no_decoder)"
    using Cons by simp
  show ?case
  proof (cases "validate d data = Inr True")
    case True
    then obtain r where "decode d data = Inr r" using Cons.prems by auto
    with True show ?thesis by simp
  next
    case False
    then show ?thesis using rest by (auto split: sum.splits)
  qed
qed

lemma decoder_sound:
  "(\<exists>b. validate d data = Inr b) \<and>
   (validate d data = Inr True \<longrightarrow> (\<exists>r. decode d data = Inr r))"
proof (induction d)
  case (BorshAccountDecoder coder accountName)
  then show ?case by (auto split: sum.splits)
next
  case (ManualAccountDecoder accountType decoderFn)
  then show ?case by (auto split: sum.splits)
next
  case (MultiAccountDecoder ds)
  have total: "\<exists>b. validate_some ds data = Inr b"
    by (rule validate_some_total) (use MultiAccountDecoder in blast)
  have "\<exists>r. decode_first ds data = Inr r" if v: "validate_some ds data = Inr True"
  proof -
    have "validate_some ds data = Inr (\<exists>d \<in> set ds. validate d data = Inr True)"
      by (rule validate_some_iff) (use MultiAccountDecoder in blast)
    with v have "\<exists>d \<in> set ds. validate d data = Inr True" by simp
    then obtain d where d: "find (\<lambda>d. validate d data = Inr True) ds = Some d"
      by (cases "find (\<lambda>d. validate d data = Inr True) ds") (auto simp: find_None_iff)
    then have "d \<in> set ds" and "validate d data = Inr True"
      by (auto simp: find_Some_iff)
    then obtain r where "decode d data = Inr r" using MultiAccountDecoder by blast
    moreover have "decode_first ds data = decode d data"
      using decode_first_find [of ds data] MultiAccountDecoder d by simp
    ultimately show ?thesis by simp
  qed
  with total show ?case by simp
qed

lemma validate_total: "\<exists>b. validate d data = Inr b"
  using decoder_sound by blast

lemma validate_true_decodes: "validate d data = Inr True \<Longrightarrow> \<exists>r. decode d data = Inr r"
  using decoder_sound by blast

lemma decode_first_eq:
  "decode_first ds data =
     (case find (\<lambda>d. validate d data = Inr True) ds of
        Some d \<Rightarrow> decode d data
      | None \<Rightarrow> no_decoder)"
  by (rule decode_first_find) (rule validate_true_decodes)

lemma multi_decode_find:
  "decode (MultiAccountDecoder ds) data =
     (case find (\<lambda>d. validate d data = Inr True) ds of
        Some d \<Rightarrow> decode d data
      | None \<Rightarrow> no_decoder)"
  by (simp only: decode.simps decode_first_eq)

lemma multi_validate_iff:
  "validate (MultiAccountDecoder ds) data = Inr True \<longleftrightarrow>
     (\<exists>r. decode (MultiAccountDecoder ds) data = Inr r)"
proof -
  have v: "validate_some ds data = Inr (\<exists>d \<in> set ds. validate d data = Inr True)"
    by (rule validate_some_iff) (rule validate_total)
  show ?thesis
  proof (cases "find (\<lambda>d. validate d data = Inr True) ds")
    case None
    then have "\<not> (\<exists>d \<in> set ds. validate d data = Inr True)" by (auto simp: find_None_iff)
    moreover have "decode (MultiAccountDecoder ds) data = no_decoder"
      using None by (simp only: multi_decode_find option.case)
    moreover have "validate (MultiAccountDecoder ds) data = validate_some ds data" by simp
    ultimately show ?thesis using v by (simp add: no_decoder_def del: validate.simps decode.simps)
  next
    case (Some d)
    then have "d \<in> set ds" and d: "validate d data = Inr True" by (auto simp: find_Some_iff)
    then have "\<exists>d \<in> set ds. validate d data = Inr True" by blast
    moreover have "decode (MultiAccountDecoder ds) data = decode d data"
      using Some by (simp only: multi_decode_find option.case)
    moreover have "validate (MultiAccountDecoder ds) data = validate_some ds data" by simp
    ultimately show ?thesis using v validate_true_decodes [OF d]
      by (auto simp del: validate.simps decode.simps)
  qed
qed

text \<open>
  Claim C6. For every buffer and every list of decoders, \<^verbatim>\<open>decode\<close> of the composite
  decoder is the decode result of the first decoder of the list whose \<^verbatim>\<open>validate\<close> answers
  \<^verbatim>\<open>true\<close> on the buffer, and that result is a decoded account, not a throw; it throws the
  error when no decoder validates. With the decoders \<open>[A, B]\<close>, where only \<open>B\<close> validates, the
  result is the one of \<open>B\<close>.
\<close>

theorem multi_decode_first_valid:
  "decode (MultiAccountDecoder ds) data =
     (case find (\<lambda>d. validate d data = Inr True) ds of
        Some d \<Rightarrow> decode d data
      | None \<Rightarrow> Inl (Err ''No decoder could successfully decode the account data''))
   \<and> (\<forall>d. find (\<lambda>d. validate d data = Inr True) ds = Some d \<longrightarrow> (\<exists>r. decode d data = Inr r))
   \<and> (validate A data \<noteq> Inr True \<and> validate B data = Inr True
        \<longrightarrow> decode (MultiAccountDecoder [A, B]) data = decode B data)"
proof (intro conjI allI impI)
  show "decode (MultiAccountDecoder ds) data =
     (case find (\<lambda>d. validate d data = Inr True) ds of
        Some d \<Rightarrow> decode d data
      | None \<Rightarrow> Inl (Err ''No decoder could successfully decode the account data''))"
    by (simp only: multi_decode_find no_decoder_def)
next
  fix d assume "find (\<lambda>d. validate d data = Inr True) ds = Some d"
  then have "validate d data = Inr True" by (auto simp: find_Some_iff)
  then show "\<exists>r. decode d data = Inr r" by (rule validate_true_decodes)
next
  assume "validate A data \<noteq> Inr True \<and> validate B data = Inr True"
  then have "find (\<lambda>d. validate d data = Inr True) [A, B] = Some B" by simp
  then show "decode (MultiAccountDecoder [A, B]) data = decode B data"
    by (simp only: multi_decode_find option.case)
qed

theorem multi_decode_first_valid_witness:
  "decode (MultiAccountDecoder [decoder_A, decoder_B]) [1, 2, 3, 4, 5, 6, 7, 8]
     = Inr \<lparr> d_type = ''B'', d_data = JObj [(''n'', JNum 1)] \<rparr>
   \<and> decode (MultiAccountDecoder [decoder_A, decoder_B]) [1, 2] = Inl (Err ''No decoder could successfully decode the account data'')"
  using multi_decode_first_valid [of "[decoder_A, decoder_B]" "[1, 2, 3, 4, 5, 6, 7, 8]" decoder_A decoder_B]
    multi_decode_first_valid [of "[decoder_A, decoder_B]" "[1, 2]" decoder_A decoder_B]
  by (simp add: decoder_A_def decoder_B_def manual_decode_def)

text \<open>
  Claim C8, as the code has it. For every buffer and every decoder, \<^verbatim>\<open>validate\<close> returns a
  boolean and never throws; it returns \<^verbatim>\<open>false\<close> whenever \<^verbatim>\<open>decode\<close> throws; and it returns
  \<^verbatim>\<open>true\<close> exactly when \<^verbatim>\<open>decode\<close> succeeds, except that a Borsh decoder also returns
  \<^verbatim>\<open>false\<close> on every buffer of fewer than 8 bytes, which it does not try to decode.
\<close>

theorem validate_never_throws:
  "(\<exists>b. validate d data = Inr b)
   \<and> (\<forall>e. decode d data = Inl e \<longrightarrow> validate d data = Inr False)
   \<and> (validate d data = Inr True \<longleftrightarrow> (\<exists>r. decode d data = Inr r) \<and> \<not> borsh_short d data)"
proof (intro conjI allI impI)
  show "\<exists>b. validate d data = Inr b" by (rule validate_total)
next
  fix e assume e: "decode d data = Inl e"
  obtain b where b: "validate d data = Inr b" using validate_total by blast
  have "\<not> b" using validate_true_decodes [of d data] b e by auto
  with b show "validate d data = Inr False" by simp
next
  show "validate d data = Inr True \<longleftrightarrow> (\<exists>r. decode d data = Inr r) \<and> \<not> borsh_short d data"
  proof (cases d)
    case (BorshAccountDecoder coder accountName)
    then show ?thesis by (auto split: sum.splits)
  next
    case (ManualAccountDecoder accountType decoderFn)
    then show ?thesis by (auto split: sum.splits)
  next
    case (MultiAccountDecoder ds)
    then show ?thesis using multi_validate_iff [of ds data] by simp
  qed
qed

theorem validate_never_throws_witness:
  "validate (MultiAccountDecoder [decoder_A, lenient_borsh]) [1, 2] = Inr False
   \<and> validate (MultiAccountDecoder [decoder_A, decoder_B]) [1, 2, 3, 4] = Inr True"
  using validate_never_throws [of "MultiAccountDecoder [decoder_A, lenient_borsh]" "[1, 2]"]
    validate_never_throws [of "MultiAccountDecoder [decoder_A, decoder_B]" "[1, 2, 3, 4]"]
  by (simp add: decoder_A_def decoder_B_def lenient_borsh_def manual_decode_def borsh_decode_def)

text \<open>
  Claim C8 as stated fails on a Borsh decoder whose coder accepts a buffer of fewer than 8
  bytes: \<^verbatim>\<open>decode\<close> succeeds and \<^verbatim>\<open>validate\<close> is \<^verbatim>\<open>false\<close>.
\<close>

theorem borsh_short_buffer_counterexample:
  "validate lenient_borsh [1, 2] = Inr False
   \<and> decode lenient_borsh [1, 2] = Inr \<lparr> d_type = ''Flag'', d_data = JObj [] \<rparr>"
  by (simp add: lenient_borsh_def borsh_decode_def)

section \<open>Properties of the event dispatcher\<close>

lemma new_System_ok: "idle_or_draining (new_System config)"
  by (simp add: idle_or_draining_def new_System_def new_EventDispatcher_def)

lemma addToReplayBuffer_other [simp]:
  "processingQueue (addToReplayBuffer ev now d) = processingQueue d"
  "isProcessing (addToReplayBuffer ev now d) = isProcessing d"
  "replayBufferConfig (addToReplayBuffer ev now d) = replayBufferConfig d"
  "handlers (addToReplayBuffer ev now d) = handlers d"
  "globalHandlers (addToReplayBuffer ev now d) = globalHandlers d"
  by (simp_all add: addToReplayBuffer_def Let_def)

lemma registration_other [simp]:
  "processingQueue (on t h d) = processingQueue d" "isProcessing (on t h d) = isProcessing d"
  "replayBufferConfig (on t h d) = replayBufferConfig d" "replayBuffer (on t h d) = replayBuffer d"
  "processingQueue (onAll h d) = processingQueue d" "isProcessing (onAll h d) = isProcessing d"
  "replayBufferConfig (onAll h d) = replayBufferConfig d" "replayBuffer (onAll h d) = replayBuffer d"
  "processingQueue (off t h d) = processingQueue d" "isProcessing (off t h d) = isProcessing d"
  "replayBufferConfig (off t h d) = replayBufferConfig d" "replayBuffer (off t h d) = replayBuffer d"
  "processingQueue (offAll h d) = processingQueue d" "isProcessing (offAll h d) = isProcessing d"
  "replayBufferConfig (offAll h d) = replayBufferConfig d" "replayBuffer (offAll h d) = replayBuffer d"
  by (simp_all add: on_def onAll_def off_def offAll_def Let_def split: option.splits)

lemma sweep_other [simp]:
  "processingQueue (cleanupOldEvents now d) = processingQueue d"
  "isProcessing (cleanupOldEvents now d) = isProcessing d"
  "replayBufferConfig (cleanupOldEvents now d) = replayBufferConfig d"
  "processingQueue (clearReplayBuffer d) = processingQueue d"
  "isProcessing (clearReplayBuffer d) = isProcessing d"
  "replayBufferConfig (clearReplayBuffer d) = replayBufferConfig d"
  by (simp_all add: cleanupOldEvents_def clearReplayBuffer_def Let_def split: option.splits)

lemma drain_turn_ok:
  assumes "drains s = 1" and "isProcessing (disp s)"
    and "map fst (deliveries s) @ processingQueue (disp s) = enqueued s"
  shows "idle_or_draining (drain_turn s)"
  using assms by (cases "processingQueue (disp s)") (simp_all add: idle_or_draining_def drain_turn_def)

lemma settle_ok: "idle_or_draining s \<Longrightarrow> idle_or_draining (settle s)"
proof (cases "drains s > 0")
  case True
  assume inv: "idle_or_draining s"
  with True have "drains s = 1" and "isProcessing (disp s)"
    by (auto simp: idle_or_draining_def split: if_splits)
  moreover from inv have "map fst (deliveries s) @ processingQueue (disp s) = enqueued s"
    by (simp add: idle_or_draining_def)
  ultimately have "idle_or_draining (drain_turn s)" by (rule drain_turn_ok)
  with True show ?thesis by (simp add: settle_def)
next
  case False
  assume "idle_or_draining s"
  with False show ?thesis by (simp add: settle_def)
qed

lemma dispatch_busy:
  assumes "isProcessing (disp s)"
  shows "deliveries (dispatch ev now s) = deliveries s"
    and "drains (dispatch ev now s) = drains s"
    and "processingQueue (disp (dispatch ev now s)) = processingQueue (disp s) @ [ev]"
    and "isProcessing (disp (dispatch ev now s))"
    and "enqueued (dispatch ev now s) = enqueued s @ [ev]"
  using assms by (simp_all add: dispatch_def processQueue_def Let_def)

lemma dispatch_idle:
  assumes "\<not> isProcessing (disp s)" and "processingQueue (disp s) = []"
  shows "deliveries (dispatch ev now s) =
      deliveries s @ [(ev, allHandlers (disp s) ev)]"
    and "drains (dispatch ev now s) = drains s + 1"
    and "processingQueue (disp (dispatch ev now s)) = []"
    and "isProcessing (disp (dispatch ev now s))"
    and "enqueued (dispatch ev now s) = enqueued s @ [ev]"
  using assms
  by (simp_all add: dispatch_def processQueue_def drain_turn_def Let_def allHandlers_def)

lemma dispatch_ok: "idle_or_draining s \<Longrightarrow> idle_or_draining (dispatch ev now s)"
proof (cases "isProcessing (disp s)")
  case True
  assume "idle_or_draining s"
  with True show ?thesis by (simp add: idle_or_draining_def dispatch_busy)
next
  case False
  assume inv: "idle_or_draining s"
  with False have q: "processingQueue (disp s) = []" by (simp add: idle_or_draining_def)
  from inv False q show ?thesis by (simp add: idle_or_draining_def dispatch_idle)
qed

lemma step_ok: "idle_or_draining s \<Longrightarrow> idle_or_draining (step c s)"
proof (cases c)
  case (Dispatch ev now)
  assume "idle_or_draining s"
  then show ?thesis using Dispatch by (simp add: dispatch_ok)
next
  case Settle
  assume "idle_or_draining s"
  then show ?thesis using Settle by (simp add: settle_ok)
qed (simp_all add: idle_or_draining_def)

lemma run_ok: "idle_or_draining s \<Longrightarrow> idle_or_draining (run calls s)"
  unfolding run_def by (induction calls arbitrary: s) (simp_all add: step_ok)

lemma step_enqueued: "enqueued (step c s) = enqueued s @ dispatched [c]"
proof (cases c)
  case (Dispatch ev now)
  then show ?thesis by (simp add: dispatch_def processQueue_def drain_turn_def Let_def split: list.splits)
next
  case Settle
  then show ?thesis by (simp add: settle_def drain_turn_def split: list.splits)
qed simp_all

lemma dispatched_Cons: "dispatched (c # calls) = dispatched [c] @ dispatched calls"
  by (cases c) simp_all

lemma run_enqueued: "enqueued (run calls s) = enqueued s @ dispatched calls"
  unfolding run_def
proof (induction calls arbitrary: s)
  case Nil
  then show ?case by simp
next
  case (Cons c calls)
  show ?case using Cons [of "step c s"] dispatched_Cons [of c calls]
    by (simp add: step_enqueued)
qed


lemma run_append: "run (xs @ ys) s = run ys (run xs s)"
  by (simp add: run_def)

lemma run_Cons: "run (c # calls) s = run calls (step c s)"
  by (simp add: run_def)

lemma settles_drain:
  "idle_or_draining s \<Longrightarrow> length (processingQueue (disp s)) = n \<Longrightarrow>
   processingQueue (disp (run (replicate (Suc n) Settle) s)) = [] \<and>
   \<not> isProcessing (disp (run (replicate (Suc n) Settle) s)) \<and>
   map fst (deliveries (run (replicate (Suc n) Settle) s)) = enqueued s"
proof (induction n arbitrary: s)
  case 0
  then have q: "processingQueue (disp s) = []" by simp
  have fifo: "map fst (deliveries s) = enqueued s"
    using "0.prems"(1) q by (simp add: idle_or_draining_def)
  show ?case
  proof (cases "isProcessing (disp s)")
    case True
    with "0.prems"(1) have "drains s = 1" by (simp add: idle_or_draining_def)
    then have "run (replicate (Suc 0) Settle) s =
        s\<lparr>disp := (disp s)\<lparr>isProcessing := False\<rparr>, drains := drains s - 1\<rparr>"
      using q by (simp add: run_def settle_def drain_turn_def)
    then show ?thesis using q fifo by simp
  next
    case False
    with "0.prems"(1) have "drains s = 0" by (simp add: idle_or_draining_def)
    then have "run (replicate (Suc 0) Settle) s = s"
      by (simp add: run_def settle_def)
    then show ?thesis using q fifo False by simp
  qed
next
  case (Suc n)
  then obtain ev rest where q: "processingQueue (disp s) = ev # rest" and len: "length rest = n"
    by (cases "processingQueue (disp s)") auto
  with Suc.prems have busy: "isProcessing (disp s)" and d: "drains s = 1"
    by (auto simp: idle_or_draining_def split: if_splits)
  have ok: "idle_or_draining (settle s)" using Suc.prems by (simp add: settle_ok)
  have q': "processingQueue (disp (settle s)) = rest"
    using q d by (simp add: settle_def drain_turn_def)
  have e: "enqueued (settle s) = enqueued s"
    using q d by (simp add: settle_def drain_turn_def)
  from Suc.IH [OF ok] q' len e show ?case
    by (simp add: run_Cons)
qed

lemma observed_subseq:
  assumes "map fst (deliveries s) @ q = es"
  shows "subseq (observed h s) es"
proof -
  have "subseq (filter (\<lambda>(ev, hs). h \<in> set hs) (deliveries s)) (deliveries s)" by simp
  then have "subseq (observed h s) (map fst (deliveries s))"
    unfolding observed_def by (rule subseq_map)
  also have "subseq (map fst (deliveries s)) (map fst (deliveries s) @ q)"
    by (rule prefix_imp_subseq) simp
  finally show ?thesis using assms by simp
qed

text \<open>
  Claim C2. After any sequence of calls on a new dispatcher, made by any number of
  producers and interleaved in any way with the moments at which the handlers settle:
  at most one activation of the drain loop exists, and exactly when \<^verbatim>\<open>isProcessing\<close> is
  set; a \<^verbatim>\<open>dispatch\<close> that arrives while \<^verbatim>\<open>isProcessing\<close> is set only appends its event to
  the queue; the events handed to \<^verbatim>\<open>processEvent\<close> so far, followed by the queue, are the
  dispatched events in the order of their dispatch, so that the events seen by any one
  handler are in that order; and once the handlers have settled often enough, every
  dispatched event has been delivered.
\<close>

theorem dispatcher_fifo:
  "drains (run calls (new_System config)) \<le> 1
   \<and> (isProcessing (disp (run calls (new_System config)))
        \<longleftrightarrow> drains (run calls (new_System config)) = 1)
   \<and> (isProcessing (disp (run calls (new_System config))) \<longrightarrow>
        deliveries (step (Dispatch ev now) (run calls (new_System config)))
          = deliveries (run calls (new_System config))
        \<and> drains (step (Dispatch ev now) (run calls (new_System config))) = 1
        \<and> processingQueue (disp (step (Dispatch ev now) (run calls (new_System config))))
          = processingQueue (disp (run calls (new_System config))) @ [ev])
   \<and> map fst (deliveries (run calls (new_System config)))
        @ processingQueue (disp (run calls (new_System config))) = dispatched calls
   \<and> subseq (observed h (run calls (new_System config))) (dispatched calls)
   \<and> map fst (deliveries (run (calls @ replicate
          (Suc (length (processingQueue (disp (run calls (new_System config)))))) Settle)
          (new_System config))) = dispatched calls"
proof -
  define s where "s = run calls (new_System config)"
  have ok: "idle_or_draining s" unfolding s_def by (rule run_ok) (rule new_System_ok)
  have enq: "enqueued s = dispatched calls"
    unfolding s_def by (simp add: run_enqueued new_System_def)
  have fifo: "map fst (deliveries s) @ processingQueue (disp s) = dispatched calls"
    using ok enq by (simp add: idle_or_draining_def)
  have d: "drains s = (if isProcessing (disp s) then 1 else 0)"
    using ok by (simp add: idle_or_draining_def)
  have busy: "deliveries (step (Dispatch ev now) s) = deliveries s
        \<and> drains (step (Dispatch ev now) s) = 1
        \<and> processingQueue (disp (step (Dispatch ev now) s)) = processingQueue (disp s) @ [ev]"
    if "isProcessing (disp s)"
    using that d by (simp add: dispatch_busy)
  have obs: "subseq (observed h s) (dispatched calls)"
    using fifo by (rule observed_subseq)
  have live: "map fst (deliveries (run (calls @ replicate
          (Suc (length (processingQueue (disp s)))) Settle) (new_System config)))
        = dispatched calls"
    using settles_drain [OF ok refl] enq by (simp add: run_append s_def)
  from d busy fifo obs live show ?thesis unfolding s_def by simp
qed


theorem dispatcher_fifo_witness:
  "isProcessing (disp (run [OnAll 7, Dispatch (event_example 1) 10] (new_System config_example)))
   \<and> deliveries (step (Dispatch (event_example 2) 20)
        (run [OnAll 7, Dispatch (event_example 1) 10] (new_System config_example)))
      = [(event_example 1, [7])]
   \<and> processingQueue (disp (step (Dispatch (event_example 2) 20)
        (run [OnAll 7, Dispatch (event_example 1) 10] (new_System config_example))))
      = [event_example 2]"
proof -
  have busy: "isProcessing (disp (run [OnAll 7, Dispatch (event_example 1) 10]
      (new_System config_example)))"
    by (simp add: run_def dispatch_def processQueue_def drain_turn_def Let_def new_System_def
        new_EventDispatcher_def onAll_def)
  have "deliveries (run [OnAll 7, Dispatch (event_example 1) 10] (new_System config_example))
      = [(event_example 1, [7])]"
    and "processingQueue (disp (run [OnAll 7, Dispatch (event_example 1) 10]
      (new_System config_example))) = []"
    by (simp_all add: run_def dispatch_def processQueue_def drain_turn_def Let_def new_System_def
        new_EventDispatcher_def onAll_def allHandlers_def set_add_def addToReplayBuffer_def)
  with busy dispatcher_fifo [of "[OnAll 7, Dispatch (event_example 1) 10]" config_example
      "event_example 2" 20]
  show ?thesis by simp
qed

lemma drain_turn_buffer [simp]:
  "replayBuffer (disp (drain_turn s)) = replayBuffer (disp s)"
  "replayBufferConfig (disp (drain_turn s)) = replayBufferConfig (disp s)"
  "enqueued (drain_turn s) = enqueued s"
  by (simp_all add: drain_turn_def split: list.splits)

lemma dispatch_buffer:
  "replayBufferConfig (disp (dispatch ev now s)) = replayBufferConfig (disp s)"
  "replayBuffer (disp (dispatch ev now s)) =
     (if enabled (replayBufferConfig (disp s))
      then replayBuffer (addToReplayBuffer ev now (disp s)) else replayBuffer (disp s))"
  by (simp_all add: dispatch_def processQueue_def Let_def)

lemma step_config: "replayBufferConfig (disp (step c s)) = replayBufferConfig (disp s)"
  by (cases c) (simp_all add: dispatch_buffer settle_def)

lemma run_config: "replayBufferConfig (disp (run calls s)) = replayBufferConfig (disp s)"
  unfolding run_def by (induction calls arbitrary: s) (simp_all add: step_config)

lemma trim_drop: "(if length b > m then drop (length b - m) b else b) = drop (length b - m) b"
  by simp

lemma addToReplayBuffer_eq:
  "replayBuffer (addToReplayBuffer ev now d) =
     drop (length (replayBuffer d @ [\<lparr> event = ev, timestamp = now \<rparr>])
             - maxSize (replayBufferConfig d))
       (replayBuffer d @ [\<lparr> event = ev, timestamp = now \<rparr>])"
proof -
  define b where "b = replayBuffer d @ [\<lparr> event = ev, timestamp = now \<rparr>]"
  have "replayBuffer (addToReplayBuffer ev now d) =
      (if length b > maxSize (replayBufferConfig d)
       then drop (length b - maxSize (replayBufferConfig d)) b else b)"
    unfolding addToReplayBuffer_def Let_def b_def by simp
  then show ?thesis unfolding b_def [symmetric] by (simp only: trim_drop)
qed

lemma addToReplayBuffer_length:
  "length (replayBuffer (addToReplayBuffer ev now d)) \<le> maxSize (replayBufferConfig d)"
  unfolding addToReplayBuffer_eq by (simp del: drop_append)

lemma addToReplayBuffer_events:
  "map event (replayBuffer (addToReplayBuffer ev now d)) =
     drop (Suc (length (replayBuffer d)) - maxSize (replayBufferConfig d))
       (map event (replayBuffer d) @ [ev])"
proof -
  have "map event (replayBuffer d) @ [ev] =
      map event (replayBuffer d @ [\<lparr> event = ev, timestamp = now \<rparr>])" by simp
  then show ?thesis unfolding addToReplayBuffer_eq by (simp only: drop_map length_append_singleton)
qed

lemma step_bounded:
  assumes "length (replayBuffer (disp s)) \<le> maxSize (replayBufferConfig (disp s))"
  shows "length (replayBuffer (disp (step c s))) \<le> maxSize (replayBufferConfig (disp s))"
proof (cases c)
  case (Dispatch ev now)
  then show ?thesis using assms addToReplayBuffer_length [of ev now "disp s"]
    by (simp add: dispatch_buffer)
next
  case Settle
  then show ?thesis using assms by (simp add: settle_def)
next
  case (CleanupOldEvents now)
  have "length (filter P (replayBuffer (disp s))) \<le> maxSize (replayBufferConfig (disp s))" for P
    using assms length_filter_le [of P "replayBuffer (disp s)"] by linarith
  with CleanupOldEvents assms show ?thesis
    by (simp add: cleanupOldEvents_def Let_def split: option.splits)
next
  case ClearReplayBuffer
  then show ?thesis by (simp add: clearReplayBuffer_def)
qed (use assms in simp_all)

lemma run_bounded:
  "length (replayBuffer (disp s)) \<le> maxSize (replayBufferConfig (disp s)) \<Longrightarrow>
   length (replayBuffer (disp (run calls s))) \<le> maxSize (replayBufferConfig (disp s))"
proof (induction calls arbitrary: s)
  case Nil
  then show ?case by (simp add: run_def)
next
  case (Cons c calls)
  have "length (replayBuffer (disp (step c s))) \<le> maxSize (replayBufferConfig (disp (step c s)))"
    using step_bounded [OF Cons.prems] by (simp add: step_config)
  from Cons.IH [OF this] show ?case by (simp add: run_Cons step_config)
qed

lemma most_recent_snoc:
  "drop (Suc (length (drop (length es - m) es)) - m) (drop (length es - m) es @ [ev]) =
     drop (length (es @ [ev]) - m) (es @ [ev])"
proof (cases "length es < m")
  case True
  then show ?thesis by simp
next
  case False
  then have "length (drop (length es - m) es) = m" by simp
  then have "drop (Suc (length (drop (length es - m) es)) - m) (drop (length es - m) es @ [ev]) =
      drop 1 (drop (length es - m) es @ [ev])" by simp
  also have "\<dots> = drop (Suc (length es - m)) (es @ [ev])"
    by (cases "m = 0") (simp_all add: drop_Suc tl_drop flip: drop_tl)
  also have "Suc (length es - m) = length (es @ [ev]) - m" using False by simp
  finally show ?thesis .
qed


lemma step_most_recent:
  assumes "enabled (replayBufferConfig (disp s))" and "keeps_buffer c"
    and "map event (replayBuffer (disp s)) =
      drop (length (enqueued s) - maxSize (replayBufferConfig (disp s))) (enqueued s)"
  shows "map event (replayBuffer (disp (step c s))) =
      drop (length (enqueued (step c s)) - maxSize (replayBufferConfig (disp s)))
        (enqueued (step c s))"
proof (cases c)
  case (Dispatch ev now)
  have len: "length (replayBuffer (disp s)) =
      length (drop (length (enqueued s) - maxSize (replayBufferConfig (disp s))) (enqueued s))"
    using arg_cong [OF assms(3), of length] by simp
  have "map event (replayBuffer (disp (step c s))) =
      drop (Suc (length (replayBuffer (disp s))) - maxSize (replayBufferConfig (disp s)))
        (map event (replayBuffer (disp s)) @ [ev])"
    using Dispatch assms(1) by (simp add: dispatch_buffer addToReplayBuffer_events)
  also have "\<dots> = drop (length (enqueued s @ [ev]) - maxSize (replayBufferConfig (disp s)))
        (enqueued s @ [ev])"
    unfolding len assms(3) by (rule most_recent_snoc)
  finally have "map event (replayBuffer (disp (step c s))) =
      drop (length (enqueued s @ [ev]) - maxSize (replayBufferConfig (disp s)))
        (enqueued s @ [ev])" .
  moreover have "enqueued (step c s) = enqueued s @ [ev]"
    unfolding step_enqueued Dispatch by simp
  ultimately show ?thesis by (simp only:)
next
  case Settle
  then show ?thesis using assms by (simp add: settle_def step_enqueued [of Settle s, simplified])
qed (use assms in simp_all)

lemma run_most_recent:
  "enabled (replayBufferConfig (disp s)) \<Longrightarrow> list_all keeps_buffer calls \<Longrightarrow>
   map event (replayBuffer (disp s)) =
      drop (length (enqueued s) - maxSize (replayBufferConfig (disp s))) (enqueued s) \<Longrightarrow>
   map event (replayBuffer (disp (run calls s))) =
      drop (length (enqueued (run calls s)) - maxSize (replayBufferConfig (disp s)))
        (enqueued (run calls s))"
proof (induction calls arbitrary: s)
  case Nil
  then show ?case by (simp add: run_def)
next
  case (Cons c calls)
  have "map event (replayBuffer (disp (step c s))) =
      drop (length (enqueued (step c s)) - maxSize (replayBufferConfig (disp (step c s))))
        (enqueued (step c s))"
    using step_most_recent [of s c] Cons.prems by (simp add: step_config)
  with Cons.IH [of "step c s"] Cons.prems show ?case by (simp add: run_Cons step_config)
qed

text \<open>
  Claim C7. After any sequence of calls on a new dispatcher the replay buffer holds at most
  \<^verbatim>\<open>maxSize\<close> entries. When the buffer is enabled and nothing sweeps or clears it, its
  entries are the most recent \<^verbatim>\<open>maxSize\<close> dispatched events in the order of their arrival:
  after \<^verbatim>\<open>maxSize + k\<close> events the first \<open>k\<close> are gone and exactly \<^verbatim>\<open>maxSize\<close> remain.
\<close>

theorem replay_buffer_bounded:
  "length (replayBuffer (disp (run calls (new_System config)))) \<le> maxSize config
   \<and> (enabled config \<and> list_all keeps_buffer calls \<longrightarrow>
        map event (replayBuffer (disp (run calls (new_System config)))) =
          drop (length (dispatched calls) - maxSize config) (dispatched calls))
   \<and> (enabled config \<and> list_all keeps_buffer calls
        \<and> length (dispatched calls) = maxSize config + k \<longrightarrow>
        map event (replayBuffer (disp (run calls (new_System config)))) =
          drop k (dispatched calls)
        \<and> length (replayBuffer (disp (run calls (new_System config)))) = maxSize config)"
proof -
  define s0 where "s0 = new_System config"
  have cfg: "replayBufferConfig (disp s0) = config"
    and empty: "replayBuffer (disp s0) = []" and enq0: "enqueued s0 = []"
    by (simp_all add: s0_def new_System_def new_EventDispatcher_def)
  have bound: "length (replayBuffer (disp (run calls s0))) \<le> maxSize config"
    using run_bounded [of s0 calls] by (simp add: cfg empty)
  have enq: "enqueued (run calls s0) = dispatched calls"
    by (simp add: run_enqueued enq0)
  have recent: "map event (replayBuffer (disp (run calls s0))) =
      drop (length (dispatched calls) - maxSize config) (dispatched calls)"
    if "enabled config" and "list_all keeps_buffer calls"
    using run_most_recent [of s0 calls] that by (simp add: cfg empty enq0 enq)
  have exact: "map event (replayBuffer (disp (run calls s0))) = drop k (dispatched calls)
      \<and> length (replayBuffer (disp (run calls s0))) = maxSize config"
    if "enabled config" and "list_all keeps_buffer calls"
      and "length (dispatched calls) = maxSize config + k"
  proof -
    have m: "map event (replayBuffer (disp (run calls s0))) = drop k (dispatched calls)"
      using recent [OF that(1,2)] that(3) by simp
    have "length (map event (replayBuffer (disp (run calls s0)))) = length (drop k (dispatched calls))"
      by (simp only: m)
    then have "length (replayBuffer (disp (run calls s0))) = maxSize config"
      using that(3) by simp
    with m show ?thesis by simp
  qed
  from bound recent exact show ?thesis unfolding s0_def by blast
qed

theorem replay_buffer_bounded_witness:
  "map event (replayBuffer (disp (run
      [Dispatch (event_example 1) 10, Dispatch (event_example 2) 20, Settle,
       Dispatch (event_example 3) 30] (new_System config_example))))
     = [event_example 2, event_example 3]
   \<and> length (replayBuffer (disp (run
      [Dispatch (event_example 1) 10, Dispatch (event_example 2) 20, Settle,
       Dispatch (event_example 3) 30] (new_System config_example)))) = 2"
  using replay_buffer_bounded [of
      "[Dispatch (event_example 1) 10, Dispatch (event_example 2) 20, Settle,
        Dispatch (event_example 3) 30]" config_example 1]
  by (simp add: config_example_def)

section \<open>Properties of the RPC client\<close>

lemma executeWithRetry_unfold:
  "executeWithRetry getSlot operation st =
     withRetry_loop (attempt_operation getSlot operation) sleep rpc_options 1 1000 st"
  by (simp add: executeWithRetry_def withRetry_def rpc_options_def)

lemma attempt_success:
  "operation (connection c) tr = Inr v \<Longrightarrow>
   attempt_operation getSlot operation (c, tr) = (Inr v, c, tr @ [Called (connection c) True])"
  by (simp add: attempt_operation_def call_operation_def)

lemma attempt_rethrow:
  "operation (connection c) tr = Inl e \<Longrightarrow> \<not> shouldFailover e \<Longrightarrow>
   attempt_operation getSlot operation (c, tr) = (Inl e, c, tr @ [Called (connection c) False])"
  by (simp add: attempt_operation_def call_operation_def)

lemma first_attempt_fails:
  "fn s = (Inl e, s') \<Longrightarrow>
   withRetry_loop fn sl rpc_options 1 1000 s = withRetry_loop fn sl rpc_options 2 2000 (sl 1000 s')"
  by (subst withRetry_loop.simps) (simp add: rpc_options_def numeral_2_eq_2)

lemma second_attempt_fails:
  "fn s = (Inl e, s') \<Longrightarrow>
   withRetry_loop fn sl rpc_options 2 2000 s = withRetry_loop fn sl rpc_options 3 4000 (sl 2000 s')"
  by (subst withRetry_loop.simps) (simp add: rpc_options_def numeral_3_eq_3)

lemma third_attempt_fails:
  "fn s = (Inl e, s') \<Longrightarrow> withRetry_loop fn sl rpc_options 3 delay s = (Inl (toError e), s')"
  by (subst withRetry_loop.simps) (simp add: rpc_options_def)

lemma attempt_succeeds:
  "fn s = (Inr v, s') \<Longrightarrow> attempt \<le> 3 \<Longrightarrow>
   withRetry_loop fn sl rpc_options attempt delay s = (Inr v, s')"
  by (subst withRetry_loop.simps) (simp add: rpc_options_def)

lemma three_failures:
  assumes "fn s = (Inl e1, s1)" and "fn (sl 1000 s1) = (Inl e2, s2)"
    and "fn (sl 2000 s2) = (Inl e3, s3)"
  shows "withRetry_loop fn sl rpc_options 1 1000 s = (Inl (toError e3), s3)"
proof -
  have "withRetry_loop fn sl rpc_options 1 1000 s =
      withRetry_loop fn sl rpc_options 2 2000 (sl 1000 s1)"
    using assms(1) by (rule first_attempt_fails [of fn s e1 s1 sl])
  also have "\<dots> = withRetry_loop fn sl rpc_options 3 4000 (sl 2000 s2)"
    using assms(2) by (rule second_attempt_fails [of fn "sl 1000 s1" e2 s2 sl])
  also have "\<dots> = (Inl (toError e3), s3)"
    using assms(3) by (rule third_attempt_fails [of fn "sl 2000 s2" e3 s3 sl])
  finally show ?thesis .
qed

lemma failure_then_success:
  assumes "fn s = (Inl e1, s1)" and "fn (sl 1000 s1) = (Inr v, s2)"
  shows "withRetry_loop fn sl rpc_options 1 1000 s = (Inr v, s2)"
proof -
  have "withRetry_loop fn sl rpc_options 1 1000 s =
      withRetry_loop fn sl rpc_options 2 2000 (sl 1000 s1)"
    using assms(1) by (rule first_attempt_fails [of fn s e1 s1 sl])
  also have "\<dots> = (Inr v, s2)"
    using assms(2) by (rule attempt_succeeds [of fn "sl 1000 s1" v s2 2 sl]) simp
  finally show ?thesis .
qed

text \<open>
  Claim C3, as the code has it. An error for which \<^verbatim>\<open>shouldFailover\<close> does not hold causes
  no failover: the client keeps its endpoint and no probe is sent. But it is not propagated
  at once: \<^verbatim>\<open>withRetry\<close> counts it as a failed attempt like any other error, sleeps 1000 ms
  and calls the operation again, then sleeps 2000 ms and calls it a third time, and only the
  error of the third attempt reaches the caller.
\<close>

theorem other_errors_are_retried:
  "(operation (connection c) tr = Inl e1 \<and> \<not> shouldFailover e1
    \<and> operation (connection c) (tr @ [Called (connection c) False, Slept 1000]) = Inr v
    \<longrightarrow> executeWithRetry getSlot operation (c, tr) =
          (Inr v, c, tr @ [Called (connection c) False, Slept 1000, Called (connection c) True]))
   \<and> (operation (connection c) tr = Inl e1 \<and> \<not> shouldFailover e1
    \<and> operation (connection c) (tr @ [Called (connection c) False, Slept 1000]) = Inl e2
    \<and> \<not> shouldFailover e2
    \<and> operation (connection c)
         (tr @ [Called (connection c) False, Slept 1000, Called (connection c) False, Slept 2000])
        = Inl e3
    \<and> \<not> shouldFailover e3
    \<longrightarrow> executeWithRetry getSlot operation (c, tr) =
          (Inl (toError e3), c,
           tr @ [Called (connection c) False, Slept 1000, Called (connection c) False, Slept 2000,
                 Called (connection c) False]))"
proof (intro conjI impI)
  assume a: "operation (connection c) tr = Inl e1 \<and> \<not> shouldFailover e1
    \<and> operation (connection c) (tr @ [Called (connection c) False, Slept 1000]) = Inr v"
  have 1: "attempt_operation getSlot operation (c, tr) =
      (Inl e1, c, tr @ [Called (connection c) False])"
    using a by (simp add: attempt_rethrow)
  have 2: "attempt_operation getSlot operation (sleep 1000 (c, tr @ [Called (connection c) False])) =
      (Inr v, c, tr @ [Called (connection c) False, Slept 1000, Called (connection c) True])"
    using a attempt_success [of operation c "tr @ [Called (connection c) False, Slept 1000]" v getSlot]
    by (simp add: sleep_def)
  show "executeWithRetry getSlot operation (c, tr) =
          (Inr v, c, tr @ [Called (connection c) False, Slept 1000, Called (connection c) True])"
    unfolding executeWithRetry_unfold using 1 2 by (rule failure_then_success)
next
  assume a: "operation (connection c) tr = Inl e1 \<and> \<not> shouldFailover e1
    \<and> operation (connection c) (tr @ [Called (connection c) False, Slept 1000]) = Inl e2
    \<and> \<not> shouldFailover e2
    \<and> operation (connection c)
         (tr @ [Called (connection c) False, Slept 1000, Called (connection c) False, Slept 2000])
        = Inl e3
    \<and> \<not> shouldFailover e3"
  have 1: "attempt_operation getSlot operation (c, tr) =
      (Inl e1, c, tr @ [Called (connection c) False])"
    using a by (simp add: attempt_rethrow)
  have 2: "attempt_operation getSlot operation (sleep 1000 (c, tr @ [Called (connection c) False])) =
      (Inl e2, c, tr @ [Called (connection c) False, Slept 1000, Called (connection c) False])"
    using a attempt_rethrow [of operation c "tr @ [Called (connection c) False, Slept 1000]" e2 getSlot]
    by (simp add: sleep_def)
  have 3: "attempt_operation getSlot operation
      (sleep 2000 (c, tr @ [Called (connection c) False, Slept 1000, Called (connection c) False])) =
      (Inl e3, c, tr @ [Called (connection c) False, Slept 1000, Called (connection c) False,
        Slept 2000, Called (connection c) False])"
    using a attempt_rethrow [of operation c
        "tr @ [Called (connection c) False, Slept 1000, Called (connection c) False, Slept 2000]"
        e3 getSlot]
    by (simp add: sleep_def)
  show "executeWithRetry getSlot operation (c, tr) =
          (Inl (toError e3), c,
           tr @ [Called (connection c) False, Slept 1000, Called (connection c) False, Slept 2000,
                 Called (connection c) False])"
    unfolding executeWithRetry_unfold using 1 2 3 by (rule three_failures)
qed

lemma invalid_params_not_failover: "\<not> shouldFailover (Err ''Invalid params: missing account'')"
  by (simp add: shouldFailover_def toLowerCase_def)

lemma client_example_connection: "connection (client_example fallbacks) = ''https://primary''"
  by (simp add: client_example_def)

theorem other_errors_are_retried_witness:
  "executeWithRetry primary_limited invalid_params (client_example None, []) =
     (Inl (Err ''Invalid params: missing account''), client_example None,
      [Called ''https://primary'' False, Slept 1000, Called ''https://primary'' False, Slept 2000,
       Called ''https://primary'' False])
   \<and> executeWithRetry primary_limited invalid_once (client_example None, []) =
     (Inr 7, client_example None,
      [Called ''https://primary'' False, Slept 1000, Called ''https://primary'' True])"
proof -
  have 1: "executeWithRetry primary_limited invalid_params (client_example None, []) =
     (Inl (Err ''Invalid params: missing account''), client_example None,
      [Called ''https://primary'' False, Slept 1000, Called ''https://primary'' False, Slept 2000,
       Called ''https://primary'' False])"
    using other_errors_are_retried [where operation = invalid_params and c = "client_example None"
        and tr = "[]" and ?e1.0 = "Err ''Invalid params: missing account''"
        and ?e2.0 = "Err ''Invalid params: missing account''"
        and ?e3.0 = "Err ''Invalid params: missing account''" and getSlot = primary_limited]
      invalid_params_not_failover
    by (simp add: invalid_params_def client_example_connection)
  have 2: "executeWithRetry primary_limited invalid_once (client_example None, []) =
     (Inr 7, client_example None,
      [Called ''https://primary'' False, Slept 1000, Called ''https://primary'' True])"
    using other_errors_are_retried [where operation = invalid_once and c = "client_example None"
        and tr = "[]" and ?e1.0 = "Err ''Invalid params: missing account''" and v = 7
        and ?e2.0 = "Err ''Invalid params: missing account''"
        and ?e3.0 = "Err ''Invalid params: missing account''" and getSlot = primary_limited]
      invalid_params_not_failover
    by (simp add: invalid_once_def client_example_connection)
  from 1 2 show ?thesis by (rule conjI)
qed

text \<open>
  Claim C3 as stated fails: a request that the endpoint rejects as malformed is sent three
  times, with sleeps of 1000 ms and 2000 ms in between, before its error is propagated.
\<close>

theorem malformed_request_counterexample:
  "\<not> shouldFailover (Err ''Invalid params: missing account'')
   \<and> snd (snd (executeWithRetry primary_limited invalid_params (client_example None, []))) =
      [Called ''https://primary'' False, Slept 1000, Called ''https://primary'' False, Slept 2000,
       Called ''https://primary'' False]"
proof -
  have a: "attempt_operation primary_limited invalid_params (client_example None, tr) =
      (Inl (Err ''Invalid params: missing account''), client_example None,
       tr @ [Called ''https://primary'' False])" for tr
    using attempt_rethrow [of invalid_params "client_example None" tr
        "Err ''Invalid params: missing account''" primary_limited]
      invalid_params_not_failover
    by (simp add: invalid_params_def client_example_connection)
  have 1: "attempt_operation primary_limited invalid_params (client_example None, []) =
      (Inl (Err ''Invalid params: missing account''), client_example None,
       [Called ''https://primary'' False])"
    using a [of "[]"] by simp
  have 2: "attempt_operation primary_limited invalid_params
      (sleep 1000 (client_example None, [Called ''https://primary'' False])) =
      (Inl (Err ''Invalid params: missing account''), client_example None,
       [Called ''https://primary'' False, Slept 1000, Called ''https://primary'' False])"
    using a [of "[Called ''https://primary'' False, Slept 1000]"] by (simp add: sleep_def)
  have 3: "attempt_operation primary_limited invalid_params
      (sleep 2000 (client_example None,
         [Called ''https://primary'' False, Slept 1000, Called ''https://primary'' False])) =
      (Inl (Err ''Invalid params: missing account''), client_example None,
       [Called ''https://primary'' False, Slept 1000, Called ''https://primary'' False, Slept 2000,
        Called ''https://primary'' False])"
    using a [of "[Called ''https://primary'' False, Slept 1000, Called ''https://primary'' False,
        Slept 2000]"] by (simp add: sleep_def)
  have "executeWithRetry primary_limited invalid_params (client_example None, []) =
      (Inl (toError (Err ''Invalid params: missing account'')), client_example None,
       [Called ''https://primary'' False, Slept 1000, Called ''https://primary'' False, Slept 2000,
        Called ''https://primary'' False])"
    unfolding executeWithRetry_unfold using 1 2 3 by (rule three_failures)
  then show ?thesis using invalid_params_not_failover by simp
qed


lemma createConnection_http: "http_url endpoint \<Longrightarrow> createConnection endpoint = Inr endpoint"
  by (simp add: createConnection_def http_url_def)

lemma createConnection_other:
  "\<not> http_url endpoint \<Longrightarrow>
   createConnection endpoint = Inl (Err ''Endpoint URL must start with `http:` or `https:`.'')"
  by (simp add: createConnection_def http_url_def)

lemma new_SolanaRpcClient_http:
  "http_url (httpEndpoint config) \<Longrightarrow>
   new_SolanaRpcClient config =
     Inr \<lparr> connection = httpEndpoint config, currentEndpointIndex = 0,
           endpoints = httpEndpoint config
                       # (case fallbackEndpoints config of None \<Rightarrow> [] | Some fs \<Rightarrow> fs),
           failoverInProgress = False \<rparr>"
  by (simp add: new_SolanaRpcClient_def createConnection_http)

lemma new_client_example: "new_SolanaRpcClient (config_primary fallbacks) = Inr (client_example fallbacks)"
  by (simp add: new_SolanaRpcClient_http http_url_def config_primary_def client_example_def)

lemma retryable_shouldFailover: "retryable e \<Longrightarrow> shouldFailover e"
  by (auto simp: retryable_def shouldFailover_def split: option.splits)

lemma failover_guarded:
  "failoverInProgress c \<or> length (endpoints c) \<le> 1 \<Longrightarrow> failover getSlot (c, tr) = (Inr (), c, tr)"
  by (auto simp: failover_def)

lemma failover_switched:
  assumes "\<not> failoverInProgress c" and "1 < length (endpoints c)"
    and "http_url (endpoints c ! next_index c)"
  shows "failover getSlot (c, tr) =
     (case getSlot (endpoints c ! next_index c) tr of Inl e \<Rightarrow> Inl e | Inr slot \<Rightarrow> Inr (),
      switched c,
      tr @ [Probed (endpoints c ! next_index c) (answered (getSlot (endpoints c ! next_index c) tr))])"
proof -
  have "createConnection (endpoints c ! ((currentEndpointIndex c + 1) mod length (endpoints c)))
      = Inr (endpoints c ! ((currentEndpointIndex c + 1) mod length (endpoints c)))"
    using assms(3) by (simp add: createConnection_http next_index_def)
  then show ?thesis
    using assms(1,2)
    by (simp add: failover_def Let_def switched_def next_index_def split: sum.splits)
qed

lemma failover_rejected:
  assumes "\<not> failoverInProgress c" and "1 < length (endpoints c)"
    and "\<not> http_url (endpoints c ! next_index c)"
  shows "failover getSlot (c, tr) =
     (Inl (Err ''Endpoint URL must start with `http:` or `https:`.''),
      c\<lparr>currentEndpointIndex := next_index c\<rparr>, tr)"
proof -
  have "createConnection (endpoints c ! ((currentEndpointIndex c + 1) mod length (endpoints c)))
      = Inl (Err ''Endpoint URL must start with `http:` or `https:`.'')"
    using assms(3) by (simp add: createConnection_other next_index_def)
  then show ?thesis
    using assms(1,2) by (simp add: failover_def Let_def next_index_def)
qed

text \<open>
  A fallback that is not an \<^verbatim>\<open>http:\<close> or \<^verbatim>\<open>https:\<close> URL: \<^verbatim>\<open>failover\<close> throws what the
  constructor of the connection throws, with the index advanced, the connection to the
  primary endpoint kept and nothing sent.
\<close>

lemma failover_rejected_example:
  "failover primary_limited (client_example (Some [''ws://fallback'']), []) =
     (Inl (Err ''Endpoint URL must start with `http:` or `https:`.''),
      (client_example (Some [''ws://fallback'']))\<lparr>currentEndpointIndex := 1\<rparr>, [])
   \<and> connection ((client_example (Some [''ws://fallback'']))\<lparr>currentEndpointIndex := 1\<rparr>)
       = ''https://primary''"
proof -
  let ?c = "client_example (Some [''ws://fallback''])"
  have nx: "next_index ?c = 1" by (simp add: next_index_def client_example_def)
  have "failover primary_limited (?c, []) =
     (Inl (Err ''Endpoint URL must start with `http:` or `https:`.''),
      ?c\<lparr>currentEndpointIndex := next_index ?c\<rparr>, [])"
    by (rule failover_rejected) (simp_all add: next_index_def client_example_def http_url_def)
  then show ?thesis by (simp add: nx) (simp add: client_example_def)
qed

lemma attempt_switched:
  assumes "operation (connection c) tr = Inl e" and "shouldFailover e"
    and "\<not> failoverInProgress c" and "1 < length (endpoints c)"
    and "http_url (endpoints c ! next_index c)"
  shows "attempt_operation getSlot operation (c, tr) =
     (case getSlot (endpoints c ! next_index c) (tr @ [Called (connection c) False]) of
        Inl e' \<Rightarrow>
          (Inl e', switched c,
           tr @ [Called (connection c) False, Probed (endpoints c ! next_index c) False])
      | Inr slot \<Rightarrow>
          call_operation operation
            (switched c,
             tr @ [Called (connection c) False, Probed (endpoints c ! next_index c) True]))"
  using assms(1,2)
    failover_switched [OF assms(3,4,5), of getSlot "tr @ [Called (connection c) False]"]
  by (simp add: attempt_operation_def call_operation_def split: sum.splits)

lemma rate_limit_failover: "shouldFailover (Err ''429 Too Many Requests'')"
  by (simp add: shouldFailover_def toLowerCase_def)

lemma client_example_fallback:
  "next_index (client_example (Some [''https://fallback''])) = 1"
  "endpoints (client_example (Some [''https://fallback'']))
     ! next_index (client_example (Some [''https://fallback''])) = ''https://fallback''"
  "\<not> failoverInProgress (client_example (Some [''https://fallback'']))"
  "length (endpoints (client_example (Some [''https://fallback'']))) = 2"
  "connection (switched (client_example (Some [''https://fallback'']))) = ''https://fallback''"
  "currentEndpointIndex (switched (client_example (Some [''https://fallback'']))) = 1"
  "endpoints (switched (client_example (Some [''https://fallback''])))
     = [''https://primary'', ''https://fallback'']"
  by (simp_all add: client_example_def next_index_def switched_def)

lemma primary_limited_run:
  "executeWithRetry primary_limited primary_limited
     (client_example (Some [''https://fallback'']), []) =
   (Inr 7, switched (client_example (Some [''https://fallback''])),
    [Called ''https://primary'' False, Probed ''https://fallback'' True,
     Called ''https://fallback'' True])"
proof -
  let ?c = "client_example (Some [''https://fallback''])"
  have nx: "endpoints ?c ! next_index ?c = ''https://fallback''"
    by (rule client_example_fallback)
  have "attempt_operation primary_limited primary_limited (?c, []) =
      (case primary_limited (endpoints ?c ! next_index ?c) ([] @ [Called (connection ?c) False]) of
         Inl e' \<Rightarrow>
           (Inl e', switched ?c,
            [] @ [Called (connection ?c) False, Probed (endpoints ?c ! next_index ?c) False])
       | Inr slot \<Rightarrow>
           call_operation primary_limited
             (switched ?c,
              [] @ [Called (connection ?c) False, Probed (endpoints ?c ! next_index ?c) True]))"
  proof (rule attempt_switched [of primary_limited ?c "[]" "Err ''429 Too Many Requests''"])
    show "primary_limited (connection ?c) [] = Inl (Err ''429 Too Many Requests'')"
      by (simp add: client_example_connection primary_limited_def)
    show "shouldFailover (Err ''429 Too Many Requests'')" by (rule rate_limit_failover)
    show "\<not> failoverInProgress ?c" by (simp add: client_example_fallback)
    show "1 < length (endpoints ?c)" by (simp add: client_example_fallback)
    show "http_url (endpoints ?c ! next_index ?c)" by (simp add: nx http_url_def)
  qed
  also have "\<dots> = call_operation primary_limited
        (switched ?c, [Called ''https://primary'' False, Probed ''https://fallback'' True])"
    by (simp add: nx client_example_connection primary_limited_def)
  also have "\<dots> = (Inr 7, switched ?c,
      [Called ''https://primary'' False, Probed ''https://fallback'' True,
       Called ''https://fallback'' True])"
    by (simp add: call_operation_def client_example_fallback primary_limited_def)
  finally show ?thesis
    unfolding executeWithRetry_unfold by (rule attempt_succeeds) simp
qed

text \<open>
  Claim C5 as stated fails: the client does not wait for three failures on an endpoint.
  With the primary endpoint rate limited on every call and one fallback that answers, the
  call of \<^verbatim>\<open>executeWithRetry\<close> sends one request to the primary, which fails, then probes
  the fallback and sends the request to it: there is one failed call on \<^verbatim>\<open>endpoints[0]\<close>
  before the switch, not three, and no \<^verbatim>\<open>sleep\<close>.
\<close>

theorem single_failure_failover_counterexample:
  "shouldFailover (Err ''429 Too Many Requests'')
   \<and> snd (snd (executeWithRetry primary_limited primary_limited
                 (client_example (Some [''https://fallback'']), []))) =
      [Called ''https://primary'' False, Probed ''https://fallback'' True,
       Called ''https://fallback'' True]
   \<and> count_list (snd (snd (executeWithRetry primary_limited primary_limited
                              (client_example (Some [''https://fallback'']), []))))
        (Called ''https://primary'' False) = 1"
  using rate_limit_failover by (simp add: primary_limited_run)

text \<open>
  Claim C5, as the code has it. An error of one of the classes that the specification
  names retryable is one for which \<^verbatim>\<open>shouldFailover\<close> holds. With a fallback endpoint
  configured, no failover in progress and a next endpoint to which a connection can be
  created, \<^verbatim>\<open>failover\<close> advances the endpoint index by one modulo the number of endpoints,
  connects to that endpoint and probes it with \<^verbatim>\<open>getSlot\<close>: it returns when the probe is
  answered and throws the error of the probe otherwise. The failover happens on the first
  error of the operation for which \<^verbatim>\<open>shouldFailover\<close> holds: when the probe is answered the
  operation is called once more, over the new connection, and when it is not the error of
  the probe is thrown and the operation is not called. When the first call on the primary
  endpoint of a new client fails with such an error, the first fallback answers the probe
  and then the operation, \<^verbatim>\<open>executeWithRetry\<close> returns the answer of the fallback after
  that one failed call, and \<^verbatim>\<open>getCurrentEndpoint\<close>, which was the primary endpoint, is then
  the fallback, \<^verbatim>\<open>endpoints[1]\<close>.
\<close>

theorem failover_on_first_failure:
  "(retryable e \<longrightarrow> shouldFailover e)
   \<and> (\<not> failoverInProgress c \<and> 1 < length (endpoints c) \<and> http_url (endpoints c ! next_index c)
      \<longrightarrow> failover getSlot (c, tr) =
            (case getSlot (endpoints c ! next_index c) tr of
               Inl e' \<Rightarrow> Inl e' | Inr slot \<Rightarrow> Inr (),
             switched c,
             tr @ [Probed (endpoints c ! next_index c)
                     (answered (getSlot (endpoints c ! next_index c) tr))]))
   \<and> (operation (connection c) tr = Inl e \<and> shouldFailover e
        \<and> \<not> failoverInProgress c \<and> 1 < length (endpoints c)
        \<and> http_url (endpoints c ! next_index c)
      \<longrightarrow> attempt_operation getSlot operation (c, tr) =
            (case getSlot (endpoints c ! next_index c) (tr @ [Called (connection c) False]) of
               Inl e' \<Rightarrow>
                 (Inl e', switched c,
                  tr @ [Called (connection c) False, Probed (endpoints c ! next_index c) False])
             | Inr slot \<Rightarrow>
                 call_operation operation
                   (switched c,
                    tr @ [Called (connection c) False,
                          Probed (endpoints c ! next_index c) True])))
   \<and> (http_url (httpEndpoint config) \<and> fallbackEndpoints config = Some (fallback # others)
        \<and> http_url fallback
        \<and> operation (httpEndpoint config) tr = Inl e \<and> shouldFailover e
        \<and> getSlot fallback (tr @ [Called (httpEndpoint config) False]) = Inr slot
        \<and> operation fallback (tr @ [Called (httpEndpoint config) False, Probed fallback True])
            = Inr v
      \<longrightarrow> (case new_SolanaRpcClient config of
             Inl error \<Rightarrow> False
           | Inr c0 \<Rightarrow>
               getCurrentEndpoint c0 = Some (httpEndpoint config)
               \<and> executeWithRetry getSlot operation (c0, tr) =
                   (Inr v, switched c0,
                    tr @ [Called (httpEndpoint config) False, Probed fallback True,
                          Called fallback True])
               \<and> getCurrentEndpoint (switched c0) = Some fallback
               \<and> endpoints (switched c0) ! 1 = fallback))"
proof (intro conjI impI)
  assume "retryable e"
  then show "shouldFailover e" by (rule retryable_shouldFailover)
next
  assume "\<not> failoverInProgress c \<and> 1 < length (endpoints c) \<and> http_url (endpoints c ! next_index c)"
  then show "failover getSlot (c, tr) =
            (case getSlot (endpoints c ! next_index c) tr of
               Inl e' \<Rightarrow> Inl e' | Inr slot \<Rightarrow> Inr (),
             switched c,
             tr @ [Probed (endpoints c ! next_index c)
                     (answered (getSlot (endpoints c ! next_index c) tr))])"
    using failover_switched [of c getSlot tr] by simp
next
  assume "operation (connection c) tr = Inl e \<and> shouldFailover e
        \<and> \<not> failoverInProgress c \<and> 1 < length (endpoints c)
        \<and> http_url (endpoints c ! next_index c)"
  then show "attempt_operation getSlot operation (c, tr) =
            (case getSlot (endpoints c ! next_index c) (tr @ [Called (connection c) False]) of
               Inl e' \<Rightarrow>
                 (Inl e', switched c,
                  tr @ [Called (connection c) False, Probed (endpoints c ! next_index c) False])
             | Inr slot \<Rightarrow>
                 call_operation operation
                   (switched c,
                    tr @ [Called (connection c) False,
                          Probed (endpoints c ! next_index c) True]))"
    using attempt_switched [of operation c tr e getSlot] by simp
next
  assume a: "http_url (httpEndpoint config) \<and> fallbackEndpoints config = Some (fallback # others)
        \<and> http_url fallback
        \<and> operation (httpEndpoint config) tr = Inl e \<and> shouldFailover e
        \<and> getSlot fallback (tr @ [Called (httpEndpoint config) False]) = Inr slot
        \<and> operation fallback (tr @ [Called (httpEndpoint config) False, Probed fallback True])
            = Inr v"
  define c0 where "c0 = \<lparr> connection = httpEndpoint config, currentEndpointIndex = 0,
           endpoints = httpEndpoint config # fallback # others, failoverInProgress = False \<rparr>"
  have new: "new_SolanaRpcClient config = Inr c0"
    using a by (simp add: new_SolanaRpcClient_http c0_def)
  have c0: "connection c0 = httpEndpoint config" "currentEndpointIndex c0 = 0"
    "endpoints c0 = httpEndpoint config # fallback # others" "\<not> failoverInProgress c0"
    by (simp_all add: c0_def)
  have nx: "next_index c0 = 1" "endpoints c0 ! next_index c0 = fallback"
    by (simp_all add: next_index_def c0)
  have sw: "connection (switched c0) = fallback" "currentEndpointIndex (switched c0) = 1"
    "endpoints (switched c0) = httpEndpoint config # fallback # others"
    by (simp_all add: switched_def nx c0)
  have "attempt_operation getSlot operation (c0, tr) =
      call_operation operation
        (switched c0, tr @ [Called (httpEndpoint config) False, Probed fallback True])"
    using a attempt_switched [of operation c0 tr e getSlot] by (simp add: c0 nx)
  also have "\<dots> = (Inr v, switched c0,
      tr @ [Called (httpEndpoint config) False, Probed fallback True, Called fallback True])"
    using a by (simp add: call_operation_def sw)
  finally have run: "executeWithRetry getSlot operation (c0, tr) =
      (Inr v, switched c0,
       tr @ [Called (httpEndpoint config) False, Probed fallback True, Called fallback True])"
    unfolding executeWithRetry_unfold by (rule attempt_succeeds) simp
  have "getCurrentEndpoint c0 = Some (httpEndpoint config)"
    by (simp add: getCurrentEndpoint_def c0)
  moreover have "getCurrentEndpoint (switched c0) = Some fallback"
    by (simp add: getCurrentEndpoint_def sw)
  moreover have "endpoints (switched c0) ! 1 = fallback" by (simp add: sw)
  ultimately show "case new_SolanaRpcClient config of
             Inl error \<Rightarrow> False
           | Inr c0 \<Rightarrow>
               getCurrentEndpoint c0 = Some (httpEndpoint config)
               \<and> executeWithRetry getSlot operation (c0, tr) =
                   (Inr v, switched c0,
                    tr @ [Called (httpEndpoint config) False, Probed fallback True,
                          Called fallback True])
               \<and> getCurrentEndpoint (switched c0) = Some fallback
               \<and> endpoints (switched c0) ! 1 = fallback"
    using run by (simp add: new)
qed

lemma rate_limit_retryable: "retryable (Err ''429 Too Many Requests'')"
  by (simp add: retryable_def toLowerCase_def)

lemma gateway_timeout_failover: "shouldFailover (Err ''504 Gateway Timeout'')"
  by (simp add: shouldFailover_def toLowerCase_def)

lemma switched_back:
  "switched (switched (client_example (Some [''https://fallback''])))
     = client_example (Some [''https://fallback''])"
  "endpoints (switched (client_example (Some [''https://fallback''])))
     ! next_index (switched (client_example (Some [''https://fallback''])))
     = ''https://primary''"
  "\<not> failoverInProgress (switched (client_example (Some [''https://fallback''])))"
  "length (endpoints (switched (client_example (Some [''https://fallback''])))) = 2"
  by (simp_all add: switched_def next_index_def client_example_def)

lemma config_primary_fields:
  "httpEndpoint (config_primary fallbacks) = ''https://primary''"
  "fallbackEndpoints (config_primary fallbacks) = fallbacks"
  by (simp_all add: config_primary_def)

theorem failover_on_first_failure_witness:
  "retryable (Err ''429 Too Many Requests'') \<and> shouldFailover (Err ''429 Too Many Requests'')
   \<and> new_SolanaRpcClient (config_primary (Some [''https://fallback'']))
       = Inr (client_example (Some [''https://fallback'']))
   \<and> getCurrentEndpoint (client_example (Some [''https://fallback''])) = Some ''https://primary''
   \<and> executeWithRetry primary_limited primary_limited
        (client_example (Some [''https://fallback'']), []) =
      (Inr 7, switched (client_example (Some [''https://fallback''])),
       [Called ''https://primary'' False, Probed ''https://fallback'' True,
        Called ''https://fallback'' True])
   \<and> getCurrentEndpoint (switched (client_example (Some [''https://fallback'']))) = Some ''https://fallback''
   \<and> failover all_down (switched (client_example (Some [''https://fallback''])), []) =
      (Inl (Err ''504 Gateway Timeout''), client_example (Some [''https://fallback'']),
       [Probed ''https://primary'' False])
   \<and> attempt_operation all_down all_down
        (switched (client_example (Some [''https://fallback''])), []) =
      (Inl (Err ''504 Gateway Timeout''), client_example (Some [''https://fallback'']),
       [Called ''https://fallback'' False, Probed ''https://primary'' False])"
proof -
  let ?c = "client_example (Some [''https://fallback''])"
  have 1: "shouldFailover (Err ''429 Too Many Requests'')
     \<and> getCurrentEndpoint ?c = Some ''https://primary''
     \<and> executeWithRetry primary_limited primary_limited (?c, []) =
        (Inr 7, switched ?c,
         [Called ''https://primary'' False, Probed ''https://fallback'' True,
          Called ''https://fallback'' True])
     \<and> getCurrentEndpoint (switched ?c) = Some ''https://fallback''"
    using failover_on_first_failure [where operation = primary_limited
        and getSlot = primary_limited and tr = "[]"
        and config = "config_primary (Some [''https://fallback''])"
        and e = "Err ''429 Too Many Requests''" and fallback = "''https://fallback''"
        and others = "[]" and slot = 7 and v = 7 and c = ?c]
      rate_limit_retryable
    by (simp add: primary_limited_def config_primary_fields http_url_def new_client_example)
  have 2: "failover all_down (switched ?c, []) =
        (Inl (Err ''504 Gateway Timeout''), ?c, [Probed ''https://primary'' False])
     \<and> attempt_operation all_down all_down (switched ?c, []) =
        (Inl (Err ''504 Gateway Timeout''), ?c,
         [Called ''https://fallback'' False, Probed ''https://primary'' False])"
    using failover_on_first_failure [where c = "switched ?c" and getSlot = all_down
        and tr = "[]" and operation = all_down and e = "Err ''504 Gateway Timeout''"
        and config = "config_primary (Some [''https://fallback''])"
        and fallback = "''https://fallback''" and others = "[]" and slot = 7 and v = 7]
      gateway_timeout_failover
    by (simp add: switched_back client_example_fallback(5) all_down_def http_url_def)
  from 1 2 rate_limit_retryable new_client_example show ?thesis by simp
qed

end
